theory Spec2Isabelle
  imports Complex_Main
begin

section \<open>Exceptions\<close>

text \<open>
  The exceptions the embedded Python can end in. \<open>IndexError\<close> and \<open>RuntimeError\<close> come
  from the tensor library (a dimension or an index out of range, shapes that do not
  broadcast), \<open>UnboundLocalError\<close> from reading a local variable that no branch has
  assigned, \<open>ValueError\<close> from unpacking a tuple of the wrong length.
  \<open>ConfigurationError\<close> is the exception the specification names; no statement of the
  source raises it, it is here so that the specification's sentences can be stated.
\<close>

datatype error = IndexError | RuntimeError | UnboundLocalError | ValueError | ConfigurationError

section \<open>Tensors\<close>

text \<open>
  A tensor is a nested list: \<open>Elem x\<close> is a 0-dimensional tensor, \<open>Rows ts\<close> stacks
  the sub-tensors \<open>ts\<close> along a new leading dimension.
\<close>

datatype 'a tensor = Elem 'a | Rows "'a tensor list"

text \<open>\<open>t.size()\<close>: the shape, read along the first sub-tensor of every level.\<close>

fun tensor_size :: "'a tensor \<Rightarrow> nat list" where
  "tensor_size (Elem x) = []"
| "tensor_size (Rows []) = [0]"
| "tensor_size (Rows (t # ts)) = Suc (length ts) # tensor_size t"

text \<open>A tensor of the library is rectangular; here every dimension is also non-empty.\<close>

fun rect :: "'a tensor \<Rightarrow> bool" where
  "rect (Elem x) = True"
| "rect (Rows ts) = (ts \<noteq> [] \<and> (\<forall>t \<in> set ts. rect t \<and> tensor_size t = tensor_size (hd ts)))"

text \<open>\<open>t.nelement()\<close>\<close>

fun nelement :: "'a tensor \<Rightarrow> nat" where
  "nelement (Elem x) = 1"
| "nelement (Rows ts) = sum_list (map nelement ts)"

text \<open>\<open>t[0]\<close>: an IndexError on a 0-dimensional tensor and on an empty leading dimension.\<close>

fun select0 :: "'a tensor \<Rightarrow> error + 'a tensor" where
  "select0 (Elem x) = Inl IndexError"
| "select0 (Rows []) = Inl IndexError"
| "select0 (Rows (t # ts)) = Inr t"

subsection \<open>Broadcasting\<close>

text \<open>
  Two shapes broadcast when, aligned at their last dimension, every pair of sizes is equal
  or has a 1. \<open>bc_dims\<close> walks the reversed shapes.
\<close>

fun bc_dims :: "nat list \<Rightarrow> nat list \<Rightarrow> bool" where
  "bc_dims (x # xs) (y # ys) = ((x = y \<or> x = 1 \<or> y = 1) \<and> bc_dims xs ys)"
| "bc_dims xs ys = True"

definition broadcastable :: "nat list \<Rightarrow> nat list \<Rightarrow> bool" where
  "broadcastable s1 s2 = bc_dims (rev s1) (rev s2)"

text \<open>
  The element-wise combination of two tensors whose shapes broadcast: the tensor of lower
  rank is repeated along the missing leading dimensions, a dimension of size 1 is repeated
  along the other tensor's dimension.
\<close>

function (sequential) expand :: "('a \<Rightarrow> 'a \<Rightarrow> 'a) \<Rightarrow> 'a tensor \<Rightarrow> 'a tensor \<Rightarrow> 'a tensor" where
  "expand f (Elem x) (Elem y) = Elem (f x y)"
| "expand f (Elem x) (Rows bs) = Rows (map (expand f (Elem x)) bs)"
| "expand f (Rows as) (Elem y) = Rows (map (\<lambda>a. expand f a (Elem y)) as)"
| "expand f (Rows as) (Rows bs) =
     (if length (tensor_size (Rows bs)) < length (tensor_size (Rows as))
        then Rows (map (\<lambda>a. expand f a (Rows bs)) as)
      else if length (tensor_size (Rows as)) < length (tensor_size (Rows bs))
        then Rows (map (\<lambda>b. expand f (Rows as) b) bs)
      else if length as = length bs
        then Rows (map (\<lambda>(a, b). expand f a b) (zip as bs))
      else (case bs of
              [b] \<Rightarrow> Rows (map (\<lambda>a. expand f a b) as)
            | _ \<Rightarrow> (case as of
                      [a] \<Rightarrow> Rows (map (\<lambda>b. expand f a b) bs)
                    | _ \<Rightarrow> Rows [])))"
  by pat_completeness auto

lemma size_tensor_mem: "t \<in> set ts \<Longrightarrow> size t < Suc (size_list size ts)"
  by (induction ts) auto

termination expand
proof (relation "measure (\<lambda>(f, a, b). size a + size b)")
  fix f :: "'a \<Rightarrow> 'a \<Rightarrow> 'a" and as bs :: "'a tensor list" and z x y
  assume "z \<in> set (zip as bs)" "(x, y) = z"
  then have "x \<in> set as" "y \<in> set bs"
    by (auto dest: set_zip_leftD set_zip_rightD)
  then show "((f, x, y), (f, Rows as, Rows bs)) \<in> measure (\<lambda>(f, a, b). size a + size b)"
    using size_tensor_mem[of x as] size_tensor_mem[of y bs] by simp
qed (auto dest: size_tensor_mem)

definition broadcast :: "('a \<Rightarrow> 'a \<Rightarrow> 'a) \<Rightarrow> 'a tensor \<Rightarrow> 'a tensor \<Rightarrow> error + 'a tensor" where
  "broadcast f a b =
     (if broadcastable (tensor_size a) (tensor_size b) then Inr (expand f a b)
      else Inl RuntimeError)"

subsection \<open>The arithmetic of the tensor library\<close>

text \<open>
  The entries of a weight are floating-point numbers of 32 bits, and their arithmetic is
  the tensor library's, not the source's. It is a parameter of the model: \<open>add_op\<close>,
  \<open>mul_op\<close> and \<open>div_op\<close> are the library's sum, product and quotient of two entries,
  \<open>num n\<close> is the entry that the Python integer \<open>n\<close> is converted to, and \<open>mean_op\<close>,
  \<open>norm1_op\<close> and \<open>sum_op\<close> are the mean, the L1 norm and the sum that a reduction returns
  for the list of the entries it reduces, in whatever order the library adds them up.
  Nothing is assumed of these operations, so what is proved holds for the rounding,
  the infinities and the NaN of floating point as it does for exact arithmetic.

  The entries 0, 1 and -1 and the comparison \<open><\<close> are those of the type of the entries;
  nothing is assumed of them either (a comparison with NaN is false).
\<close>

record 'a arith =
  add_op :: "'a \<Rightarrow> 'a \<Rightarrow> 'a"
  mul_op :: "'a \<Rightarrow> 'a \<Rightarrow> 'a"
  div_op :: "'a \<Rightarrow> 'a \<Rightarrow> 'a"
  num :: "nat \<Rightarrow> 'a"
  mean_op :: "'a list \<Rightarrow> 'a"
  norm1_op :: "'a list \<Rightarrow> 'a"
  sum_op :: "'a list \<Rightarrow> 'a"

subsection \<open>The tensor operations the source calls\<close>

text \<open>\<open>a.add(b)\<close> and \<open>a.mul(b)\<close> for a tensor \<open>b\<close>; \<open>t.mul(c)\<close> and \<open>t.div(n)\<close> for a number.\<close>

definition add :: "'a arith \<Rightarrow> 'a tensor \<Rightarrow> 'a tensor \<Rightarrow> error + 'a tensor" where
  "add A a b = broadcast (add_op A) a b"

definition mul :: "'a arith \<Rightarrow> 'a tensor \<Rightarrow> 'a tensor \<Rightarrow> error + 'a tensor" where
  "mul A a b = broadcast (mul_op A) a b"

definition mul_scalar :: "'a arith \<Rightarrow> 'a tensor \<Rightarrow> 'a \<Rightarrow> 'a tensor" where
  "mul_scalar A t c = map_tensor (\<lambda>x. mul_op A x c) t"

definition div_scalar :: "'a arith \<Rightarrow> 'a tensor \<Rightarrow> nat \<Rightarrow> 'a tensor" where
  "div_scalar A t n = map_tensor (\<lambda>x. div_op A x (num A n)) t"

text \<open>
  \<open>t.clamp(lo, hi)\<close>, element by element: the larger of the entry and \<open>lo\<close>, then the
  smaller of that and \<open>hi\<close>.
\<close>

definition clamp_of :: "'a::ord \<Rightarrow> 'a \<Rightarrow> 'a \<Rightarrow> 'a" where
  "clamp_of lo hi x = (let v = (if x < lo then lo else x) in if hi < v then hi else v)"

definition clamp :: "'a::ord tensor \<Rightarrow> 'a \<Rightarrow> 'a \<Rightarrow> 'a tensor" where
  "clamp t lo hi = map_tensor (clamp_of lo hi) t"

text \<open>\<open>t.sign()\<close>, element by element: 1, -1, and 0 for an entry that is 0.\<close>

definition sign_of :: "'a::{zero,one,uminus,ord} \<Rightarrow> 'a" where
  "sign_of x = (if 0 < x then 1 else if x < 0 then - 1 else 0)"

definition sign :: "'a::{zero,one,uminus,ord} tensor \<Rightarrow> 'a tensor" where
  "sign t = map_tensor sign_of t"

text \<open>
  Reductions with \<open>keepdim=True\<close>. \<open>entries_of ts\<close> is, for a list of equally shaped
  tensors, the tensor of that shape that holds at every position the list of the entries
  the tensors have there. \<open>reduce_keepdim f d\<close> replaces dimension \<open>d\<close> by a dimension of
  size 1 that holds what \<open>f\<close> returns for the entries along it. (The reduction of an empty
  dimension would need the shape of the missing sub-tensors; \<open>Elem []\<close> stands for it.)
\<close>

fun entries_of :: "'a tensor list \<Rightarrow> 'a list tensor" where
  "entries_of [] = Elem []"
| "entries_of [t] = map_tensor (\<lambda>x. [x]) t"
| "entries_of (t # u # ts) = expand (\<lambda>xs ys. xs @ ys) (map_tensor (\<lambda>x. [x]) t) (entries_of (u # ts))"

fun reduce_keepdim :: "('a list \<Rightarrow> 'a) \<Rightarrow> nat \<Rightarrow> 'a tensor \<Rightarrow> 'a tensor" where
  "reduce_keepdim f d (Elem x) = Elem x"
| "reduce_keepdim f 0 (Rows ts) = Rows [map_tensor f (entries_of ts)]"
| "reduce_keepdim f (Suc d) (Rows ts) = Rows (map (reduce_keepdim f d) ts)"

text \<open>A reduction along dimension \<open>d\<close>: the dimension must exist.\<close>

definition reduce_dim :: "('a list \<Rightarrow> 'a) \<Rightarrow> 'a tensor \<Rightarrow> nat \<Rightarrow> error + 'a tensor" where
  "reduce_dim f t d =
     (if d < length (tensor_size t) then Inr (reduce_keepdim f d t) else Inl IndexError)"

text \<open>\<open>t.mean(d, keepdim=True)\<close> and \<open>t.norm(1, d, keepdim=True)\<close>\<close>

definition mean_dim :: "'a arith \<Rightarrow> 'a tensor \<Rightarrow> nat \<Rightarrow> error + 'a tensor" where
  "mean_dim A t d = reduce_dim (mean_op A) t d"

definition norm1 :: "'a arith \<Rightarrow> 'a tensor \<Rightarrow> nat \<Rightarrow> error + 'a tensor" where
  "norm1 A t d = reduce_dim (norm1_op A) t d"

text \<open>
  \<open>t.sum([1,2], keepdim=True)\<close>: dimensions 1 and 2 must exist; for every index of
  dimension 0 they are replaced by two dimensions of size 1 that hold the sum of the
  entries along both, taken in the order of the memory (dimension 2 runs faster).
\<close>

fun sub_tensors :: "'a tensor \<Rightarrow> 'a tensor list" where
  "sub_tensors (Elem x) = []"
| "sub_tensors (Rows ts) = ts"

fun reduce_keepdim_1_2 :: "('a list \<Rightarrow> 'a) \<Rightarrow> 'a tensor \<Rightarrow> 'a tensor" where
  "reduce_keepdim_1_2 f (Elem x) = Elem x"
| "reduce_keepdim_1_2 f (Rows ts) =
     Rows (map (\<lambda>c. Rows [Rows [map_tensor f
                  (entries_of (concat (map sub_tensors (sub_tensors c))))]]) ts)"

definition sum_dims_1_2 :: "'a arith \<Rightarrow> 'a tensor \<Rightarrow> error + 'a tensor" where
  "sum_dims_1_2 A t =
     (if 2 < length (tensor_size t) then Inr (reduce_keepdim_1_2 (sum_op A) t)
      else Inl IndexError)"

text \<open>
  \<open>dst.copy_(src)\<close>: the new contents of \<open>dst\<close>. With equal shapes these are the
  entries of \<open>src\<close>; otherwise \<open>src\<close> must broadcast to the shape of \<open>dst\<close>.
\<close>

definition copy_into :: "'a tensor \<Rightarrow> 'a tensor \<Rightarrow> error + 'a tensor" where
  "copy_into dst src =
     (if tensor_size src = tensor_size dst then Inr src
      else if broadcastable (tensor_size dst) (tensor_size src)
              \<and> tensor_size (expand (\<lambda>d s. s) dst src) = tensor_size dst
        then Inr (expand (\<lambda>d s. s) dst src)
      else Inl RuntimeError)"

section \<open>The model and its parameters\<close>

text \<open>
  A parameter is an object of the model; it is named by its address, and the parameter
  heap gives the tensor each parameter holds at the moment (\<open>p.data\<close>).
\<close>

type_synonym addr = nat

type_synonym 'a heap = "addr \<Rightarrow> 'a tensor"

text \<open>
  What \<open>model.modules()\<close> yields: each module with its class and the addresses of its
  weight and (optional) bias. \<open>Other\<close> is any module that is neither a convolution nor a
  linear layer nor a batch normalisation, such as the network object itself.
\<close>

datatype module =
    Conv2d addr "addr option"
  | Linear addr "addr option"
  | BatchNorm2d addr addr
  | BatchNorm1d addr addr
  | Other

fun eligible :: "module \<Rightarrow> bool" where
  "eligible (Conv2d w b) = True"
| "eligible (Linear w b) = True"
| "eligible m = False"

fun weight :: "module \<Rightarrow> addr" where
  "weight (Conv2d w b) = w"
| "weight (Linear w b) = w"
| "weight (BatchNorm2d w b) = w"
| "weight (BatchNorm1d w b) = w"
| "weight Other = 0"

text \<open>The weights of the convolution and linear layers, in the order of \<open>model.modules()\<close>.\<close>

definition eligible_weights :: "module list \<Rightarrow> addr list" where
  "eligible_weights model = map weight (filter eligible model)"

text \<open>The parameters a module registers: its weight and its bias, when it has them.\<close>

fun parameters :: "module \<Rightarrow> addr list" where
  "parameters (Conv2d w b) = w # (case b of None \<Rightarrow> [] | Some a \<Rightarrow> [a])"
| "parameters (Linear w b) = w # (case b of None \<Rightarrow> [] | Some a \<Rightarrow> [a])"
| "parameters (BatchNorm2d w b) = [w, b]"
| "parameters (BatchNorm1d w b) = [w, b]"
| "parameters Other = []"

section \<open>Binarizer\<close>

record 'a Binarizer =
  saved_params :: "'a tensor list"
  target_modules :: "addr list"
  num_of_params :: nat

type_synonym 'a state = "'a Binarizer \<times> 'a heap"

subsection \<open>Construction\<close>

text \<open>
  The loop of \<open>__init__\<close> over \<open>model.modules()\<close>: a clone of the weight's data and the
  weight itself are appended for every \<open>Conv2d\<close> and \<open>Linear\<close> module.
\<close>

fun collect :: "'a heap \<Rightarrow> module list \<Rightarrow> 'a tensor list \<times> addr list \<Rightarrow> 'a tensor list \<times> addr list" where
  "collect h [] acc = acc"
| "collect h (m # ms) (sp, tm) =
     (if eligible m then collect h ms (sp @ [h (weight m)], tm @ [weight m])
      else collect h ms (sp, tm))"

text \<open>The Python slice \<open>xs[1:-1]\<close>.\<close>

definition slice_1_m1 :: "'b list \<Rightarrow> 'b list" where
  "slice_1_m1 xs = drop 1 (take (length xs - 1) xs)"

text \<open>\<open>Binarizer(model, ignore_first_last)\<close>. The constructor has no \<open>raise\<close>.\<close>

definition Binarizer_init :: "'a heap \<Rightarrow> module list \<Rightarrow> bool \<Rightarrow> error + 'a Binarizer" where
  "Binarizer_init h model ignore_first_last =
     (let (sp, tm) = collect h model ([], []);
          (sp', tm') = (if ignore_first_last \<and> length tm > 2
                        then (slice_1_m1 sp, slice_1_m1 tm) else (sp, tm))
      in Inr \<lparr>saved_params = sp', target_modules = tm', num_of_params = length tm'\<rparr>)"

subsection \<open>binarize_weights\<close>

text \<open>
  One pass of the first loop of \<open>binarize_weights\<close> on the data of one parameter:
  \<open>neg_mean = data.mean(1, keepdim=True).mul(-1)\<close>, \<open>data.add(neg_mean)\<close>, then
  \<open>clamp(-1.0, 1.0)\<close>.
\<close>

definition center_clamp :: "'a::{zero,one,uminus,ord} arith \<Rightarrow> 'a tensor \<Rightarrow> error + 'a tensor" where
  "center_clamp A t =
     (case mean_dim A t 1 of
        Inl e \<Rightarrow> Inl e
      | Inr mn \<Rightarrow>
          (case add A t (mul_scalar A mn (- 1)) of
             Inl e \<Rightarrow> Inl e
           | Inr c \<Rightarrow> Inr (clamp c (- 1) 1)))"

fun center_clamp_loop ::
  "'a::{zero,one,uminus,ord} arith \<Rightarrow> addr list \<Rightarrow> 'a heap \<Rightarrow> error option \<times> 'a heap" where
  "center_clamp_loop A [] h = (None, h)"
| "center_clamp_loop A (m # ms) h =
     (case center_clamp A (h m) of
        Inl e \<Rightarrow> (Some e, h)
      | Inr t \<Rightarrow> center_clamp_loop A ms (h(m := t)))"

text \<open>
  \<open>_save_params\<close>: for every index of \<open>saved_params\<close>, the data of the target of that
  index is copied into the buffer of that index.
\<close>

fun save_loop :: "nat list \<Rightarrow> 'a state \<Rightarrow> error option \<times> 'a state" where
  "save_loop [] (b, h) = (None, (b, h))"
| "save_loop (i # is) (b, h) =
     (if i < length (target_modules b) then
        (case copy_into (saved_params b ! i) (h (target_modules b ! i)) of
           Inl e \<Rightarrow> (Some e, (b, h))
         | Inr t \<Rightarrow> save_loop is (b\<lparr>saved_params := (saved_params b)[i := t]\<rparr>, h))
      else (Some IndexError, (b, h)))"

definition priv_save_params :: "'a state \<Rightarrow> error option \<times> 'a state" where
  "priv_save_params s = save_loop [0..<length (saved_params (fst s))] s"

text \<open>
  The scale of \<open>_binarize_weights\<close>, where one of the two branches assigns it: for four
  dimensions \<open>data.norm(1, 3, keepdim=True).sum([1,2], keepdim=True).div(n)\<close>, for two
  dimensions \<open>data.norm(1, 1, keepdim=True).div(n)\<close>. \<open>None\<close> when neither branch is taken.
\<close>

definition scale :: "'a arith \<Rightarrow> 'a tensor \<Rightarrow> nat \<Rightarrow> (error + 'a tensor) option" where
  "scale A t n =
     (if length (tensor_size t) = 4 then
        Some (case norm1 A t 3 of
                Inl e \<Rightarrow> Inl e
              | Inr a \<Rightarrow> (case sum_dims_1_2 A a of
                           Inl e \<Rightarrow> Inl e
                         | Inr c \<Rightarrow> Inr (div_scalar A c n)))
      else if length (tensor_size t) = 2 then
        Some (case norm1 A t 1 of
                Inl e \<Rightarrow> Inl e
              | Inr a \<Rightarrow> Inr (div_scalar A a n))
      else None)"

text \<open>
  The loop of \<open>_binarize_weights\<close>. The local variable \<open>mean\<close> lives across the passes of
  the loop: it is unbound (\<open>None\<close>) until a pass assigns it, and a pass that takes neither
  branch reads the value an earlier pass has left.
\<close>

fun binarize_loop ::
  "'a::{zero,one,uminus,ord} arith \<Rightarrow> addr list \<Rightarrow> 'a tensor option \<Rightarrow> 'a heap
     \<Rightarrow> error option \<times> 'a heap" where
  "binarize_loop A [] mean h = (None, h)"
| "binarize_loop A (m # ms) mean h =
     (case select0 (h m) of
        Inl e \<Rightarrow> (Some e, h)
      | Inr t0 \<Rightarrow>
          (case (case scale A (h m) (nelement t0) of
                   None \<Rightarrow> Inr mean
                 | Some (Inl e) \<Rightarrow> Inl e
                 | Some (Inr mn) \<Rightarrow> Inr (Some mn)) of
             Inl e \<Rightarrow> (Some e, h)
           | Inr None \<Rightarrow> (Some UnboundLocalError, h)
           | Inr (Some mn) \<Rightarrow>
               (case mul A (sign (h m)) mn of
                  Inl e \<Rightarrow> (Some e, h)
                | Inr t \<Rightarrow> binarize_loop A ms (Some mn) (h(m := t)))))"

definition priv_binarize_weights ::
  "'a::{zero,one,uminus,ord} arith \<Rightarrow> 'a state \<Rightarrow> error option \<times> 'a state" where
  "priv_binarize_weights A s =
     (case binarize_loop A (target_modules (fst s)) None (snd s) of
        (r, h) \<Rightarrow> (r, (fst s, h)))"

definition binarize_weights ::
  "'a::{zero,one,uminus,ord} arith \<Rightarrow> 'a state \<Rightarrow> error option \<times> 'a state" where
  "binarize_weights A s =
     (case center_clamp_loop A (target_modules (fst s)) (snd s) of
        (Some e, h) \<Rightarrow> (Some e, (fst s, h))
      | (None, h) \<Rightarrow>
          (case priv_save_params (fst s, h) of
             (Some e, s1) \<Rightarrow> (Some e, s1)
           | (None, s1) \<Rightarrow> priv_binarize_weights A s1))"

subsection \<open>restore_weights\<close>

fun restore_loop :: "nat list \<Rightarrow> 'a state \<Rightarrow> error option \<times> 'a state" where
  "restore_loop [] (b, h) = (None, (b, h))"
| "restore_loop (i # is) (b, h) =
     (if i < length (target_modules b) \<and> i < length (saved_params b) then
        (case copy_into (h (target_modules b ! i)) (saved_params b ! i) of
           Inl e \<Rightarrow> (Some e, (b, h))
         | Inr t \<Rightarrow> restore_loop is (b, h(target_modules b ! i := t)))
      else (Some IndexError, (b, h)))"

definition restore_weights :: "'a state \<Rightarrow> error option \<times> 'a state" where
  "restore_weights s = restore_loop [0..<num_of_params (fst s)] s"

section \<open>BinaryActivation\<close>

text \<open>
  The tensors of the differentiation graph are objects in a memory: the cells allocated so
  far are the addresses below \<open>top\<close>, and a tensor operation that returns a new tensor
  allocates the next cell.
\<close>

record 'a memory =
  cell :: "addr \<Rightarrow> 'a tensor"
  top :: addr

definition alloc :: "'a tensor \<Rightarrow> 'a memory \<Rightarrow> addr \<times> 'a memory" where
  "alloc t mem = (top mem, mem\<lparr>cell := (cell mem)(top mem := t), top := Suc (top mem)\<rparr>)"

record ctx =
  saved_tensors :: "addr list"

text \<open>\<open>forward(ctx, input)\<close>: \<open>ctx.save_for_backward(input)\<close>, then \<open>input.sign()\<close>.\<close>

definition forward :: "ctx \<Rightarrow> addr \<Rightarrow> 'a::{zero,one,uminus,ord} memory \<Rightarrow> ctx \<times> addr \<times> 'a memory" where
  "forward c input mem =
     (let c' = c\<lparr>saved_tensors := [input]\<rparr>;
          (out, mem') = alloc (sign (cell mem input)) mem
      in (c', out, mem'))"

text \<open>
  \<open>backward(ctx, grad_output)\<close>: \<open>input, = ctx.saved_tensors\<close> unpacks a tuple of
  length one, \<open>grad_output.clone()\<close> is returned.
\<close>

definition backward :: "ctx \<Rightarrow> addr \<Rightarrow> 'a memory \<Rightarrow> error + addr \<times> 'a memory" where
  "backward c grad_output mem =
     (case saved_tensors c of
        [input] \<Rightarrow> Inr (alloc (cell mem grad_output) mem)
      | _ \<Rightarrow> Inl ValueError)"

section \<open>Weights of rank 2 and rank 4\<close>

text \<open>
  The weight of a linear layer is a matrix (output units by input units), the weight of a
  convolution a tensor of four dimensions (output channels, input channels, kernel height,
  kernel width). They are written as nested lists of their entries.
\<close>

definition vec :: "'a list \<Rightarrow> 'a tensor" where
  "vec r = Rows (map Elem r)"

definition mat :: "'a list list \<Rightarrow> 'a tensor" where
  "mat rows = Rows (map vec rows)"

definition cube :: "'a list list list \<Rightarrow> 'a tensor" where
  "cube c = Rows (map mat c)"

definition t4 :: "'a list list list list \<Rightarrow> 'a tensor" where
  "t4 x = Rows (map cube x)"

definition wf_mat :: "nat \<Rightarrow> 'a list list \<Rightarrow> bool" where
  "wf_mat n rows = (rows \<noteq> [] \<and> 0 < n \<and> (\<forall>r \<in> set rows. length r = n))"

definition wf_cube :: "nat \<Rightarrow> nat \<Rightarrow> 'a list list list \<Rightarrow> bool" where
  "wf_cube k n c = (c \<noteq> [] \<and> (\<forall>m \<in> set c. length m = k \<and> wf_mat n m))"

definition wf_t4 :: "nat \<Rightarrow> nat \<Rightarrow> nat \<Rightarrow> 'a list list list list \<Rightarrow> bool" where
  "wf_t4 j k n x = (x \<noteq> [] \<and> (\<forall>c \<in> set x. length c = j \<and> wf_cube k n c))"

text \<open>The shapes that \<open>_binarize_weights\<close> has a branch for.\<close>

definition supported :: "'a tensor \<Rightarrow> bool" where
  "supported t = (rect t \<and> (length (tensor_size t) = 2 \<or> length (tensor_size t) = 4))"

text \<open>
  A row of a matrix after the centring loop: every entry plus the negated mean of the row,
  clamped to [-1, 1]. The scale of a row is its L1 norm divided by its length; a row is
  binarised by multiplying the sign of every entry by the scale of the row.
\<close>

definition center_row :: "'a::{zero,one,uminus,ord} arith \<Rightarrow> 'a list \<Rightarrow> 'a list" where
  "center_row A r =
     map (\<lambda>x. clamp_of (- 1) 1 (add_op A x (mul_op A (mean_op A r) (- 1)))) r"

definition row_scale :: "'a arith \<Rightarrow> 'a list \<Rightarrow> 'a" where
  "row_scale A r = div_op A (norm1_op A r) (num A (length r))"

definition binarize_row :: "'a::{zero,one,uminus,ord} arith \<Rightarrow> 'a list \<Rightarrow> 'a list" where
  "binarize_row A r = map (\<lambda>w. mul_op A (sign_of w) (row_scale A r)) r"

text \<open>
  The same for one output channel of a convolution weight, a list of matrices (one per
  input channel). \<open>along_channels c\<close> is the matrix that holds at every kernel position
  the list of the entries the input channels have there; centring adds to every entry
  the negated mean, over the input channels, of the entries at its kernel position. The
  scale of an output channel is the sum, over the input channels and the kernel rows, of
  the L1 norms of the kernel rows, divided by the number of entries of the channel.
\<close>

fun along_channels :: "'a list list list \<Rightarrow> 'a list list list" where
  "along_channels [] = []"
| "along_channels [m] = map (map (\<lambda>x. [x])) m"
| "along_channels (m # u # ms) = map2 (map2 (\<lambda>x xs. x # xs)) m (along_channels (u # ms))"

definition center_cube :: "'a::{zero,one,uminus,ord} arith \<Rightarrow> 'a list list list \<Rightarrow> 'a list list list" where
  "center_cube A c =
     map (\<lambda>m. map2 (map2 (\<lambda>x xs. clamp_of (- 1) 1 (add_op A x (mul_op A (mean_op A xs) (- 1)))))
                 m (along_channels c)) c"

definition cube_scale :: "'a arith \<Rightarrow> 'a list list list \<Rightarrow> 'a" where
  "cube_scale A c =
     div_op A (sum_op A (map (norm1_op A) (concat c))) (num A (length (concat (concat c))))"

definition binarize_cube :: "'a::{zero,one,uminus,ord} arith \<Rightarrow> 'a list list list \<Rightarrow> 'a list list list" where
  "binarize_cube A c = map (map (map (\<lambda>w. mul_op A (sign_of w) (cube_scale A c)))) c"

section \<open>The Binarizer over a training run\<close>

text \<open>
  The buffers are aligned with the targets: one buffer per target, \<open>num_of_params\<close> is
  their number, every target holds a weight of a supported shape and its buffer has that
  shape.
\<close>

definition shadow_aligned :: "'a state \<Rightarrow> bool" where
  "shadow_aligned s =
     (num_of_params (fst s) = length (target_modules (fst s))
      \<and> list_all2 (\<lambda>m p. supported (snd s m) \<and> supported p
                          \<and> tensor_size p = tensor_size (snd s m))
            (target_modules (fst s)) (saved_params (fst s)))"

text \<open>
  \<open>n\<close> times \<open>binarize_weights(); restore_weights()\<close>, with nothing in between; an
  exception ends the run.
\<close>

fun cycles ::
  "'a::{zero,one,uminus,ord} arith \<Rightarrow> nat \<Rightarrow> 'a state \<Rightarrow> error option \<times> 'a state" where
  "cycles A 0 s = (None, s)"
| "cycles A (Suc n) s =
     (case binarize_weights A s of
        (Some e, s1) \<Rightarrow> (Some e, s1)
      | (None, s1) \<Rightarrow>
          (case restore_weights s1 of
             (Some e, s2) \<Rightarrow> (Some e, s2)
           | (None, s2) \<Rightarrow> cycles A n s2))"

section \<open>A small network\<close>

text \<open>
  Exact arithmetic on the rationals, for the examples. The entries of the examples are
  chosen so that every number computed from them is a multiple of 1/4 of small size: on
  them the arithmetic of 32-bit floating point returns the same numbers.
\<close>

definition exact :: "rat arith" where
  "exact = \<lparr>add_op = (\<lambda>x y. x + y), mul_op = (\<lambda>x y. x * y), div_op = (\<lambda>x y. x / y),
            num = of_nat, mean_op = (\<lambda>xs. sum_list xs / of_nat (length xs)),
            norm1_op = (\<lambda>xs. sum_list (map abs xs)), sum_op = sum_list\<rparr>"

text \<open>
  The network of the notebook in miniature, for the examples: a first convolution, a batch
  normalisation, a second convolution, a batch normalisation, two linear layers. The
  weight of the second convolution (one output channel, two input channels, a kernel of
  height 1 and width 2) is at address 1, the weight of the first linear layer (two output
  units, four input units) at address 2; \<open>b0\<close> is the Binarizer the constructor
  returns for it.
\<close>

definition w4 :: "rat tensor" where
  "w4 = t4 [[[[1, - 2]], [[1, 4]]]]"

definition w2 :: "rat tensor" where
  "w2 = mat [[3, - 1, 1, 1], [0, 0, 0, 0]]"

definition net :: "module list" where
  "net = [Other, Conv2d 3 (Some 5), BatchNorm2d 6 7, Conv2d 1 (Some 8), BatchNorm1d 9 10,
          Linear 2 (Some 11), Linear 4 (Some 12)]"

definition h0 :: "rat heap" where
  "h0 = (\<lambda>a. vec [0])(1 := w4, 2 := w2, 3 := t4 [[[[5]]]], 4 := mat [[7, 8]])"

definition b0 :: "rat Binarizer" where
  "b0 = \<lparr>saved_params = [w4, w2], target_modules = [1, 2], num_of_params = 2\<rparr>"

text \<open>A tensor of three dimensions (shape 1, 2, 1), a rank that no branch handles.\<close>

definition w3 :: "rat tensor" where
  "w3 = Rows [Rows [Rows [Elem 1], Rows [Elem (- 1)]]]"

text \<open>
  Two states with that tensor as a tracked parameter: alone (\<open>b3\<close>, \<open>h3\<close>), and
  tracked after the linear weight \<open>w2\<close> (\<open>b23\<close>, \<open>h23\<close>).
\<close>

definition b3 :: "rat Binarizer" where
  "b3 = \<lparr>saved_params = [w3], target_modules = [1], num_of_params = 1\<rparr>"

definition h3 :: "rat heap" where
  "h3 = (\<lambda>a. vec [0])(1 := w3)"

definition b23 :: "rat Binarizer" where
  "b23 = \<lparr>saved_params = [w2, w3], target_modules = [2, 1], num_of_params = 2\<rparr>"

definition h23 :: "rat heap" where
  "h23 = (\<lambda>a. vec [0])(2 := w2, 1 := w3)"

text \<open>
  A model of two linear layers that share one weight, the parameter at address 2 (the
  second layer has been given the weight of the first). \<open>tied w\<close> is the state the
  constructor leaves for it when the shared weight holds \<open>w\<close>: the parameter is tracked
  twice, once for each layer.
\<close>

definition tied_net :: "module list" where
  "tied_net = [Linear 2 None, Linear 2 None]"

definition tied :: "rat tensor \<Rightarrow> rat state" where
  "tied w = (\<lparr>saved_params = [w, w], target_modules = [2, 2], num_of_params = 2\<rparr>,
             (\<lambda>a. vec [0])(2 := w))"

text \<open>A memory with two tensors: an input at address 0, an upstream gradient at address 1.\<close>

definition mem0 :: "rat memory" where
  "mem0 = \<lparr>cell = (\<lambda>a. Elem 0)(0 := mat [[2, 0, - 3]], 1 := mat [[5, 6, 7]]), top = 2\<rparr>"

section \<open>Frame: what the loops leave alone\<close>

lemma center_clamp_loop_frame:
  "a \<notin> set ms \<Longrightarrow> snd (center_clamp_loop A ms h) a = h a"
  by (induction ms arbitrary: h) (auto split: sum.splits)

lemma binarize_loop_frame:
  "a \<notin> set ms \<Longrightarrow> snd (binarize_loop A ms mean h) a = h a"
proof (induction ms arbitrary: mean h)
  case Nil
  then show ?case by simp
next
  case (Cons m ms)
  then have "a \<noteq> m" and "a \<notin> set ms"
    by auto
  then show ?case
    using Cons.IH by (auto split: sum.splits option.splits)
qed

lemma save_loop_frame:
  "snd (snd (save_loop is (b, h))) = h
   \<and> target_modules (fst (snd (save_loop is (b, h)))) = target_modules b
   \<and> num_of_params (fst (snd (save_loop is (b, h)))) = num_of_params b
   \<and> length (saved_params (fst (snd (save_loop is (b, h))))) = length (saved_params b)"
  by (induction "is" arbitrary: b) (auto split: sum.splits)

lemma restore_loop_frame:
  "fst (snd (restore_loop is (b, h))) = b
   \<and> (a \<notin> set (target_modules b) \<longrightarrow> snd (snd (restore_loop is (b, h))) a = h a)"
  by (induction "is" arbitrary: h) (auto split: sum.splits)

lemma priv_binarize_weights_frame:
  "fst (snd (priv_binarize_weights A s)) = fst s
   \<and> (a \<notin> set (target_modules (fst s)) \<longrightarrow> snd (snd (priv_binarize_weights A s)) a = snd s a)"
  using binarize_loop_frame[of a "target_modules (fst s)" A None "snd s"]
  by (auto simp: priv_binarize_weights_def split: prod.splits)

lemma binarize_weights_frame:
  "target_modules (fst (snd (binarize_weights A s))) = target_modules (fst s)
   \<and> num_of_params (fst (snd (binarize_weights A s))) = num_of_params (fst s)
   \<and> length (saved_params (fst (snd (binarize_weights A s)))) = length (saved_params (fst s))
   \<and> (a \<notin> set (target_modules (fst s)) \<longrightarrow> snd (snd (binarize_weights A s)) a = snd s a)"
proof -
  obtain r1 h1 where c: "center_clamp_loop A (target_modules (fst s)) (snd s) = (r1, h1)"
    by fastforce
  have h1: "a \<notin> set (target_modules (fst s)) \<Longrightarrow> h1 a = snd s a"
    using center_clamp_loop_frame[of a "target_modules (fst s)" A "snd s"] c by simp
  obtain r2 s2 where p: "priv_save_params (fst s, h1) = (r2, s2)"
    by (cases "priv_save_params (fst s, h1)") auto
  have s2: "snd s2 = h1" "target_modules (fst s2) = target_modules (fst s)"
    "num_of_params (fst s2) = num_of_params (fst s)"
    "length (saved_params (fst s2)) = length (saved_params (fst s))"
    using save_loop_frame[of "[0..<length (saved_params (fst s))]" "fst s" h1] p
    by (simp_all add: priv_save_params_def)
  show ?thesis
    using h1 s2 priv_binarize_weights_frame[of A s2 a]
    by (auto simp: binarize_weights_def c p split: option.splits)
qed

section \<open>Broadcasting on rows, matrices and cubes\<close>

lemmas expand_Rows_Rows = expand.simps(4)

declare expand.simps(4) [simp del]

lemma tensor_size_Rows: "ts \<noteq> [] \<Longrightarrow> tensor_size (Rows ts) = length ts # tensor_size (hd ts)"
  by (cases ts) simp_all

lemma tensor_size_vec: "r \<noteq> [] \<Longrightarrow> tensor_size (vec r) = [length r]"
  by (cases r) (simp_all add: vec_def)

lemma tensor_size_mat: "wf_mat n rows \<Longrightarrow> tensor_size (mat rows) = [length rows, n]"
  by (cases rows) (auto simp add: mat_def wf_mat_def tensor_size_vec)

lemma expand_singleton:
  assumes "as \<noteq> []" "length (tensor_size (hd as)) = length (tensor_size b)"
  shows "expand f (Rows as) (Rows [b]) = Rows (map (\<lambda>a. expand f a b) as)"
proof (cases as)
  case Nil
  with assms show ?thesis by simp
next
  case (Cons a as')
  show ?thesis
  proof (cases as')
    case Nil
    with Cons assms show ?thesis by (simp add: expand_Rows_Rows)
  next
    case (Cons a' as'')
    with \<open>as = a # as'\<close> assms show ?thesis by (simp add: expand_Rows_Rows)
  qed
qed

lemma expand_zip:
  assumes "as \<noteq> []" "length as = length bs"
    "length (tensor_size (hd as)) = length (tensor_size (hd bs))"
  shows "expand f (Rows as) (Rows bs) = Rows (map (\<lambda>(a, b). expand f a b) (zip as bs))"
proof -
  from assms obtain a as' b bs' where "as = a # as'" "bs = b # bs'"
    by (cases as; cases bs) auto
  with assms show ?thesis by (simp add: expand_Rows_Rows)
qed

lemma expand_vec_scalar: "r \<noteq> [] \<Longrightarrow> expand f (vec r) (Rows [Elem s]) = vec (map (\<lambda>x. f x s) r)"
  by (simp add: vec_def expand_singleton hd_map)

lemma map_zip_map2: "map (\<lambda>(a, b). F a b) (zip (map g xs) (map k xs)) = map (\<lambda>x. F (g x) (k x)) xs"
  by (induction xs) auto

lemma expand_mat_col:
  assumes "wf_mat n (map k rows)"
  shows "expand f (mat (map k rows)) (Rows (map (\<lambda>r. Rows [Elem (g r)]) rows))
           = mat (map (\<lambda>r. map (\<lambda>x. f x (g r)) (k r)) rows)"
proof -
  from assms have ne: "rows \<noteq> []" and rs: "\<And>r. r \<in> set rows \<Longrightarrow> k r \<noteq> []"
    by (auto simp: wf_mat_def)
  have "expand f (mat (map k rows)) (Rows (map (\<lambda>r. Rows [Elem (g r)]) rows))
        = Rows (map (\<lambda>r. expand f (vec (k r)) (Rows [Elem (g r)])) rows)"
    unfolding mat_def map_map using ne rs
    by (subst expand_zip) (simp_all add: hd_map tensor_size_vec map_zip_map2)
  also have "\<dots> = Rows (map (\<lambda>r. vec (map (\<lambda>x. f x (g r)) (k r))) rows)"
    using rs by (simp add: expand_vec_scalar)
  finally show ?thesis by (simp add: mat_def comp_def)
qed

lemma entries_of_Elem: "entries_of (map Elem xs) = Elem xs"
proof (induction xs)
  case Nil
  then show ?case by simp
next
  case (Cons x xs)
  then show ?case by (cases xs) simp_all
qed

section \<open>The passes of the loops on a matrix\<close>

lemma map_tensor_vec: "map_tensor f (vec r) = vec (map f r)"
  by (simp add: vec_def comp_def)

lemma map_tensor_mat: "map_tensor f (mat rows) = mat (map (map f) rows)"
  by (simp add: mat_def map_tensor_vec comp_def)

lemma map_tensor_cube: "map_tensor f (cube c) = cube (map (map (map f)) c)"
  by (simp add: cube_def map_tensor_mat comp_def)

lemma map_tensor_t4: "map_tensor f (t4 x) = t4 (map (map (map (map f))) x)"
  by (simp add: t4_def map_tensor_cube comp_def)

lemma reduce_keepdim0_vec: "reduce_keepdim f 0 (vec r) = Rows [Elem (f r)]"
  by (simp add: vec_def entries_of_Elem)

lemma reduce_keepdim1_mat:
  "reduce_keepdim f (Suc 0) (mat rows) = Rows (map (\<lambda>r. Rows [Elem (f r)]) rows)"
  by (simp add: mat_def reduce_keepdim0_vec)

lemma tensor_size_col:
  "rows \<noteq> [] \<Longrightarrow> tensor_size (Rows (map (\<lambda>r. Rows [Elem (g r)]) rows)) = [length rows, 1]"
  by (simp add: tensor_size_Rows hd_map)

lemma reduce_dim1_mat:
  assumes "wf_mat n rows"
  shows "reduce_dim f (mat rows) (Suc 0) = Inr (Rows (map (\<lambda>r. Rows [Elem (f r)]) rows))"
  using assms by (simp add: reduce_dim_def tensor_size_mat reduce_keepdim1_mat)

lemma broadcast_mat_col:
  assumes "wf_mat n (map k rows)"
  shows "broadcast f (mat (map k rows)) (Rows (map (\<lambda>r. Rows [Elem (g r)]) rows))
           = Inr (mat (map (\<lambda>r. map (\<lambda>x. f x (g r)) (k r)) rows))"
proof -
  have "rows \<noteq> []" using assms by (simp add: wf_mat_def)
  then show ?thesis
    using expand_mat_col[OF assms, of f g]
    by (simp add: broadcast_def broadcastable_def tensor_size_mat[OF assms] tensor_size_col)
qed

lemma center_clamp_mat:
  assumes "wf_mat n rows"
  shows "center_clamp A (mat rows) = Inr (mat (map (center_row A) rows))"
proof -
  let ?M = "Rows (map (\<lambda>r. Rows [Elem (mean_op A r)]) rows)"
  let ?g = "\<lambda>r. mul_op A (mean_op A r) (- 1)"
  have w: "wf_mat n (map (\<lambda>r. r) rows)"
    using assms by simp
  have neg: "mul_scalar A ?M (- 1) = Rows (map (\<lambda>r. Rows [Elem (?g r)]) rows)"
    by (simp add: mul_scalar_def comp_def)
  have ad: "add A (mat rows) (mul_scalar A ?M (- 1))
              = Inr (mat (map (\<lambda>r. map (\<lambda>x. add_op A x (?g r)) r) rows))"
    unfolding neg add_def using broadcast_mat_col[OF w, of "add_op A" ?g] by simp
  have cl: "clamp (mat (map (\<lambda>r. map (\<lambda>x. add_op A x (?g r)) r) rows)) (- 1) 1
        = mat (map (center_row A) rows)"
    by (simp add: clamp_def map_tensor_mat comp_def center_row_def[abs_def])
  show ?thesis
    by (simp only: center_clamp_def mean_dim_def reduce_dim1_mat[OF assms] One_nat_def ad cl
        sum.case)
qed

lemma select0_mat: "wf_mat n rows \<Longrightarrow> select0 (mat rows) = Inr (vec (hd rows))"
  by (cases rows) (simp_all add: mat_def wf_mat_def)

lemma nelement_vec: "nelement (vec r) = length r"
  by (induction r) (simp_all add: vec_def)

lemma nelement_select0_mat:
  "wf_mat n rows \<Longrightarrow> \<exists>t0. select0 (mat rows) = Inr t0 \<and> nelement t0 = n"
  using select0_mat[of n rows] by (cases rows) (auto simp: nelement_vec wf_mat_def)

lemma wf_mat_map: "wf_mat n rows \<Longrightarrow> (\<And>r. length (k r) = length r) \<Longrightarrow> wf_mat n (map k rows)"
  by (simp add: wf_mat_def)

lemma scale_mat:
  assumes "wf_mat n rows"
  shows "scale A (mat rows) n = Some (Inr (Rows (map (\<lambda>r. Rows [Elem (row_scale A r)]) rows)))"
proof -
  have "Rows (map (\<lambda>r. Rows [Elem (div_op A (norm1_op A r) (num A n))]) rows)
        = Rows (map (\<lambda>r. Rows [Elem (row_scale A r)]) rows)"
    using assms by (simp add: row_scale_def wf_mat_def)
  then show ?thesis
    using assms
    by (simp add: scale_def tensor_size_mat norm1_def reduce_dim1_mat div_scalar_def comp_def)
qed

lemma mul_sign_mat:
  assumes "wf_mat n rows"
  shows "mul A (sign (mat rows)) (Rows (map (\<lambda>r. Rows [Elem (row_scale A r)]) rows))
           = Inr (mat (map (binarize_row A) rows))"
proof -
  have w: "wf_mat n (map (map sign_of) rows)"
    using assms by (simp add: wf_mat_map)
  show ?thesis
    unfolding mul_def sign_def map_tensor_mat
    using broadcast_mat_col[OF w, of "mul_op A" "row_scale A"]
    by (simp add: binarize_row_def[abs_def] comp_def)
qed

section \<open>The passes of the loops on a tensor of four dimensions\<close>

lemma tensor_size_cube: "wf_cube k n c \<Longrightarrow> tensor_size (cube c) = [length c, k, n]"
  by (cases c) (auto simp add: cube_def wf_cube_def tensor_size_mat)

lemma tensor_size_t4: "wf_t4 j k n x \<Longrightarrow> tensor_size (t4 x) = [length x, j, k, n]"
  by (cases x) (auto simp add: t4_def wf_t4_def tensor_size_cube)

lemma rank_vec: "r \<noteq> [] \<Longrightarrow> length (tensor_size (vec r)) = Suc 0"
  by (simp add: tensor_size_vec)

lemma rank_mat: "wf_mat n m \<Longrightarrow> length (tensor_size (mat m)) = Suc (Suc 0)"
  by (simp add: tensor_size_mat)

lemma rank_cube: "wf_cube k n c \<Longrightarrow> length (tensor_size (cube c)) = Suc (Suc (Suc 0))"
  by (simp add: tensor_size_cube)

lemma wf_mat_hd: "wf_mat n m \<Longrightarrow> hd m \<noteq> [] \<and> length (hd m) = n"
  by (cases m) (auto simp: wf_mat_def)

lemma expand_vec_vec:
  assumes "r \<noteq> []" "length r = length r'"
  shows "expand f (vec r) (vec r') = vec (map2 f r r')"
proof -
  have "map (\<lambda>(a, b). expand f a b) (zip (map Elem r) (map Elem r')) = map Elem (map2 f r r')"
    using assms(2) by (induction r r' rule: list_induct2) auto
  moreover have "r' \<noteq> []" using assms by auto
  ultimately show ?thesis
    using assms unfolding vec_def
    by (subst expand_zip) (simp_all add: hd_map)
qed

lemma expand_mat_mat:
  assumes "wf_mat n a" "wf_mat n b" "length a = length b"
  shows "expand f (mat a) (mat b) = mat (map2 (map2 f) a b)"
proof -
  have ne: "a \<noteq> []" "b \<noteq> []" using assms by (auto simp: wf_mat_def)
  have "\<forall>r \<in> set a. length r = n" "\<forall>r \<in> set b. length r = n" "0 < n"
    using assms by (auto simp: wf_mat_def)
  with assms(3)
  have "map (\<lambda>(a, b). expand f a b) (zip (map vec a) (map vec b)) = map vec (map2 (map2 f) a b)"
    by (induction a b rule: list_induct2) (auto simp: expand_vec_vec)
  then show ?thesis
    using assms(3) ne wf_mat_hd[OF assms(1)] wf_mat_hd[OF assms(2)] unfolding mat_def
    by (subst expand_zip) (simp_all add: hd_map rank_vec)
qed

lemma wf_mat_map2:
  assumes "wf_mat n a" "wf_mat n b" "length a = length b"
  shows "wf_mat n (map2 (map2 f) a b)"
  using assms by (auto simp: wf_mat_def set_zip)

lemma map2_append_single:
  "map2 (map2 (\<lambda>xs ys. xs @ ys)) (map (map (\<lambda>x. [x])) m) g = map2 (map2 (\<lambda>x xs. x # xs)) m g"
proof -
  have "map2 (\<lambda>xs ys. xs @ ys) (map (\<lambda>x. [x]) r) s = map2 (\<lambda>x xs. x # xs) r s" for r :: "'a list" and s
    by (simp add: zip_map1 split_def)
  then show ?thesis
    by (simp add: zip_map1 split_def)
qed

lemma entries_of_mat:
  "wf_cube k n c \<Longrightarrow> entries_of (map mat c) = mat (along_channels c)
     \<and> wf_mat n (along_channels c) \<and> length (along_channels c) = k"
proof (induction c rule: along_channels.induct)
  case 1
  then show ?case by (simp add: wf_cube_def)
next
  case (2 m)
  then show ?case by (simp add: wf_cube_def map_tensor_mat wf_mat_def)
next
  case (3 m u ms)
  then have w: "wf_cube k n (u # ms)" and m: "wf_mat n m" "length m = k"
    by (auto simp: wf_cube_def)
  from 3(1)[OF w] have IH: "entries_of (map mat (u # ms)) = mat (along_channels (u # ms))"
    "wf_mat n (along_channels (u # ms))" "length (along_channels (u # ms)) = k" by auto
  have m1: "wf_mat n (map (map (\<lambda>x. [x])) m)"
    using m(1) by (simp add: wf_mat_def)
  have "entries_of (map mat (m # u # ms))
          = expand (\<lambda>xs ys. xs @ ys) (mat (map (map (\<lambda>x. [x])) m)) (mat (along_channels (u # ms)))"
    using IH(1) by (simp add: map_tensor_mat)
  also have "\<dots> = mat (map2 (map2 (\<lambda>xs ys. xs @ ys)) (map (map (\<lambda>x. [x])) m) (along_channels (u # ms)))"
    using expand_mat_mat[OF m1 IH(2), of "\<lambda>xs ys. xs @ ys"] m(2) IH(3) by simp
  also have "\<dots> = mat (along_channels (m # u # ms))"
    by (simp only: map2_append_single along_channels.simps)
  finally show ?case
    using wf_mat_map2[OF m(1) IH(2)] m(2) IH(3) by simp
qed

lemma reduce_keepdim1_t4:
  assumes "wf_t4 j k n x"
  shows "reduce_keepdim f (Suc 0) (t4 x) = Rows (map (\<lambda>c. Rows [mat (map (map f) (along_channels c))]) x)"
proof -
  have "reduce_keepdim f 0 (cube c) = Rows [mat (map (map f) (along_channels c))]"
    if "c \<in> set x" for c
  proof -
    from assms that have "wf_cube k n c"
      by (simp add: wf_t4_def)
    from entries_of_mat[OF this] show ?thesis
      by (simp add: cube_def map_tensor_mat)
  qed
  then show ?thesis by (simp add: t4_def)
qed

lemma tensor_size_slab:
  assumes "x \<noteq> []" "wf_mat n (g (hd x))"
  shows "tensor_size (Rows (map (\<lambda>c. Rows [mat (g c)]) x)) = [length x, 1, length (g (hd x)), n]"
  using assms by (simp add: tensor_size_Rows hd_map tensor_size_mat)

lemma reduce_dim1_t4:
  assumes "wf_t4 j k n x"
  shows "reduce_dim f (t4 x) (Suc 0)
           = Inr (Rows (map (\<lambda>c. Rows [mat (map (map f) (along_channels c))]) x))"
  using assms by (simp add: reduce_dim_def tensor_size_t4 reduce_keepdim1_t4)

lemma expand_cube_slab:
  assumes "wf_cube k n (map q c)" "wf_mat n g" "length g = k"
  shows "expand f (cube (map q c)) (Rows [mat g]) = cube (map (\<lambda>m. map2 (map2 f) (q m) g) c)"
proof -
  have ne: "c \<noteq> []" using assms by (auto simp: wf_cube_def)
  have ms: "\<And>m. m \<in> set c \<Longrightarrow> wf_mat n (q m) \<and> length (q m) = k"
    using assms by (auto simp: wf_cube_def)
  have "expand f (cube (map q c)) (Rows [mat g]) = Rows (map (\<lambda>a. expand f a (mat g)) (map mat (map q c)))"
    unfolding cube_def
    using ne rank_mat[of n "q (hd c)"] rank_mat[OF assms(2)] ms[of "hd c"]
    by (subst expand_singleton) (simp_all add: hd_map)
  also have "\<dots> = Rows (map (\<lambda>m. mat (map2 (map2 f) (q m) g)) c)"
    using ms assms(2,3) by (auto intro!: expand_mat_mat[of n])
  finally show ?thesis by (simp add: cube_def comp_def)
qed

lemma expand_t4_slab:
  assumes "wf_t4 j k n (map q x)" "\<And>c. c \<in> set x \<Longrightarrow> wf_mat n (g c) \<and> length (g c) = k"
  shows "expand f (t4 (map q x)) (Rows (map (\<lambda>c. Rows [mat (g c)]) x))
           = t4 (map (\<lambda>c. map (\<lambda>m. map2 (map2 f) m (g c)) (q c)) x)"
proof -
  have ne: "x \<noteq> []" using assms by (auto simp: wf_t4_def)
  have cs: "\<And>c. c \<in> set x \<Longrightarrow> wf_cube k n (q c)"
    using assms by (auto simp: wf_t4_def)
  have "expand f (t4 (map q x)) (Rows (map (\<lambda>c. Rows [mat (g c)]) x))
        = Rows (map (\<lambda>c. expand f (cube (q c)) (Rows [mat (g c)])) x)"
    unfolding t4_def map_map
    using ne rank_cube[of k n "q (hd x)"] rank_mat[of n "g (hd x)"] cs[of "hd x"] assms(2)[of "hd x"]
    by (subst expand_zip) (simp_all add: hd_map tensor_size_Rows map_zip_map2)
  also have "\<dots> = Rows (map (\<lambda>c. cube (map (\<lambda>m. map2 (map2 f) m (g c)) (q c))) x)"
    using cs assms(2) expand_cube_slab[of k n "\<lambda>m. m" _ _ f] by simp
  finally show ?thesis by (simp add: t4_def comp_def)
qed


lemma map_map2_row: "map f (map2 g r (map h s)) = map2 (\<lambda>x y. f (g x (h y))) r s"
  by (simp add: zip_map2 split_def comp_def)

lemma map_map2_nested:
  "map (map f) (map2 (map2 g) m (map (map h) s)) = map2 (map2 (\<lambda>x y. f (g x (h y)))) m s"
  by (simp add: zip_map2 split_def comp_def map_map2_row)

lemma map_cube_slab:
  "map (map (map f)) (map (\<lambda>m. map2 (map2 g) m (map (map h) s)) c)
     = map (\<lambda>m. map2 (map2 (\<lambda>x y. f (g x (h y)))) m s) c"
  by (induction c) (simp_all add: map_map2_nested del: map_map)

lemma center_cube_eq:
  "map (map (map (clamp_of (- 1) 1)))
     (map (\<lambda>m. map2 (map2 (add_op A)) m
                  (map (map (\<lambda>xs. mul_op A (mean_op A xs) (- 1))) (along_channels c))) c)
     = center_cube A c"
  unfolding map_cube_slab center_cube_def by simp

lemma wf_t4_cube: "wf_t4 j k n x \<Longrightarrow> c \<in> set x \<Longrightarrow> wf_cube k n c \<and> length c = j"
  by (simp add: wf_t4_def)

lemma broadcast_t4_slab:
  assumes "wf_t4 j k n x" "\<And>c. c \<in> set x \<Longrightarrow> wf_mat n (g c) \<and> length (g c) = k"
  shows "broadcast f (t4 x) (Rows (map (\<lambda>c. Rows [mat (g c)]) x))
           = Inr (t4 (map (\<lambda>c. map (\<lambda>m. map2 (map2 f) m (g c)) c) x))"
proof -
  have ne: "x \<noteq> []" using assms by (auto simp: wf_t4_def)
  then have g: "wf_mat n (g (hd x))" "length (g (hd x)) = k"
    using assms(2)[of "hd x"] by auto
  have "expand f (t4 x) (Rows (map (\<lambda>c. Rows [mat (g c)]) x))
          = t4 (map (\<lambda>c. map (\<lambda>m. map2 (map2 f) m (g c)) c) x)"
    using expand_t4_slab[of j k n "\<lambda>c. c" x g f] assms by simp
  then show ?thesis
    using ne g assms(1)
    by (simp add: broadcast_def broadcastable_def tensor_size_t4 tensor_size_slab)
qed

lemma center_clamp_t4:
  assumes "wf_t4 j k n x"
  shows "center_clamp A (t4 x) = Inr (t4 (map (center_cube A) x))"
proof -
  let ?M = "Rows (map (\<lambda>c. Rows [mat (map (map (mean_op A)) (along_channels c))]) x)"
  let ?g = "\<lambda>c. map (map (\<lambda>xs. mul_op A (mean_op A xs) (- 1))) (along_channels c)"
  have g: "\<And>c. c \<in> set x \<Longrightarrow> wf_mat n (?g c) \<and> length (?g c) = k"
    using entries_of_mat wf_t4_cube[OF assms] by (fastforce simp: wf_mat_def)
  have neg: "mul_scalar A ?M (- 1) = Rows (map (\<lambda>c. Rows [mat (?g c)]) x)"
    by (simp add: mul_scalar_def comp_def map_tensor_mat)
  have ad: "add A (t4 x) (mul_scalar A ?M (- 1))
              = Inr (t4 (map (\<lambda>c. map (\<lambda>m. map2 (map2 (add_op A)) m (?g c)) c) x))"
    unfolding neg add_def by (rule broadcast_t4_slab[OF assms g])
  have "map (map (map (map (clamp_of (- 1) 1))))
          (map (\<lambda>c. map (\<lambda>m. map2 (map2 (add_op A)) m (?g c)) c) x)
        = map (center_cube A) x"
  proof -
    have "\<And>c. c \<in> set x \<Longrightarrow>
            map (map (map (clamp_of (- 1) 1))) (map (\<lambda>m. map2 (map2 (add_op A)) m (?g c)) c)
            = center_cube A c"
      using center_cube_eq by fastforce
    then show ?thesis by (simp only: map_map comp_def cong: map_cong)
  qed
  then have cl: "clamp (t4 (map (\<lambda>c. map (\<lambda>m. map2 (map2 (add_op A)) m (?g c)) c) x)) (- 1) 1
        = t4 (map (center_cube A) x)"
    unfolding clamp_def map_tensor_t4 by (rule arg_cong)
  show ?thesis
    by (simp only: center_clamp_def mean_dim_def reduce_dim1_t4[OF assms] One_nat_def ad cl
        sum.case)
qed


lemma nelement_mat: "nelement (mat m) = length (concat m)"
  by (induction m) (simp_all add: mat_def nelement_vec)

lemma nelement_cube: "nelement (cube c) = length (concat (concat c))"
  by (induction c) (simp_all add: cube_def nelement_mat)

lemma select0_t4: "wf_t4 j k n x \<Longrightarrow> select0 (t4 x) = Inr (cube (hd x))"
  by (cases x) (simp_all add: t4_def wf_t4_def)

lemma length_concat_const:
  "(\<And>r. r \<in> set m \<Longrightarrow> length r = n) \<Longrightarrow> length (concat m) = length m * n"
  by (induction m) simp_all

lemma length_concat_mat: "wf_mat n m \<Longrightarrow> length (concat m) = length m * n"
  by (rule length_concat_const) (simp add: wf_mat_def)

lemma length_concat_cube: "wf_cube k n c \<Longrightarrow> length (concat (concat c)) = length c * k * n"
proof -
  assume w: "wf_cube k n c"
  have "length (concat c) = length c * k"
    using w by (intro length_concat_const) (simp add: wf_cube_def)
  moreover have "length (concat (concat c)) = length (concat c) * n"
    using w by (intro length_concat_const) (auto simp: wf_cube_def wf_mat_def)
  ultimately show ?thesis by simp
qed

lemma reduce_keepdim3_t4:
  "reduce_keepdim f (Suc (Suc (Suc 0))) (t4 x)
     = Rows (map (\<lambda>c. Rows (map (\<lambda>m. Rows (map (\<lambda>r. Rows [Elem (f r)]) m)) c)) x)"
  by (simp add: t4_def cube_def mat_def reduce_keepdim0_vec)

lemma entries_of_wrap1:
  "xs \<noteq> [] \<Longrightarrow> entries_of (map (\<lambda>x. Rows [Elem (g x)]) xs) = Rows [Elem (map g xs)]"
proof (induction xs)
  case Nil
  then show ?case by simp
next
  case (Cons x xs)
  then show ?case by (cases xs) (simp_all add: expand_singleton)
qed

lemma concat_nonempty: "m \<noteq> [] \<Longrightarrow> (\<And>r. r \<in> set m \<Longrightarrow> r \<noteq> []) \<Longrightarrow> concat m \<noteq> []"
  by (cases m) auto

lemma sum_dims_t4:
  assumes "wf_t4 j k n x"
  shows "\<exists>a. norm1 A (t4 x) 3 = Inr a \<and> sum_dims_1_2 A a
           = Inr (Rows (map (\<lambda>c. Rows [Rows [Rows [Elem (sum_op A (map (norm1_op A) (concat c)))]]]) x))"
proof -
  have ne: "x \<noteq> []" using assms by (simp add: wf_t4_def)
  have cne: "\<And>c. c \<in> set x \<Longrightarrow> c \<noteq> []"
    and mne: "\<And>c m. c \<in> set x \<Longrightarrow> m \<in> set c \<Longrightarrow> m \<noteq> []"
    using assms by (auto simp: wf_t4_def wf_cube_def wf_mat_def)
  have hd: "hd x \<in> set x" "hd x \<noteq> []" "hd (hd x) \<noteq> []"
    using ne cne mne hd_in_set by (blast, blast, metis hd_in_set)
  have cc: "concat c \<noteq> []" if "c \<in> set x" for c
    by (rule concat_nonempty[OF cne[OF that]]) (rule mne[OF that])
  let ?g = "norm1_op A"
  let ?A = "Rows (map (\<lambda>c. Rows (map (\<lambda>m. Rows (map (\<lambda>r. Rows [Elem (?g r)]) m)) c)) x)"
  let ?C = "Rows (map (\<lambda>c. Rows [Rows [Rows [Elem (sum_op A (map ?g (concat c)))]]]) x)"
  have n: "norm1 A (t4 x) 3 = Inr ?A"
    using reduce_keepdim3_t4[of ?g x]
    by (simp add: norm1_def reduce_dim_def tensor_size_t4[OF assms] numeral_3_eq_3)
  have sA: "2 < length (tensor_size ?A)"
    using ne hd by (simp add: tensor_size_Rows hd_map)
  have fl: "concat (map sub_tensors (sub_tensors (Rows (map (\<lambda>m. Rows (map (\<lambda>r. Rows [Elem (?g r)]) m)) c))))
            = map (\<lambda>r. Rows [Elem (?g r)]) (concat c)" for c :: "'a list list list"
    by (simp add: comp_def map_concat)
  have "reduce_keepdim_1_2 (sum_op A) ?A = ?C"
    using cc by (simp add: fl entries_of_wrap1 comp_def del: sub_tensors.simps)
  then have d: "sum_dims_1_2 A ?A = Inr ?C"
    using sA by (simp add: sum_dims_1_2_def)
  show ?thesis
    using n d by blast
qed


lemma scale_t4:
  assumes "wf_t4 j k n x"
  shows "scale A (t4 x) N
           = Some (Inr (Rows (map (\<lambda>c. Rows [Rows [Rows [Elem
                 (div_op A (sum_op A (map (norm1_op A) (concat c))) (num A N))]]]) x)))"
proof -
  from sum_dims_t4[OF assms, of A] obtain a where
    a: "norm1 A (t4 x) 3 = Inr a"
       "sum_dims_1_2 A a
          = Inr (Rows (map (\<lambda>c. Rows [Rows [Rows [Elem (sum_op A (map (norm1_op A) (concat c)))]]]) x))"
    by blast
  have "length (tensor_size (t4 x)) = 4"
    using assms by (simp add: tensor_size_t4)
  then show ?thesis
    by (simp add: scale_def a div_scalar_def comp_def)
qed

lemma expand_mat_scalar:
  assumes "wf_mat n m"
  shows "expand f (mat m) (Rows [Rows [Elem s]]) = mat (map (map (\<lambda>w. f w s)) m)"
proof -
  have ne: "m \<noteq> []" and rs: "\<And>r. r \<in> set m \<Longrightarrow> r \<noteq> []"
    using assms by (auto simp: wf_mat_def)
  have "expand f (mat m) (Rows [Rows [Elem s]]) = Rows (map (\<lambda>a. expand f a (Rows [Elem s])) (map vec m))"
    unfolding mat_def using ne wf_mat_hd[OF assms]
    by (subst expand_singleton) (simp_all add: hd_map rank_vec)
  also have "\<dots> = Rows (map (\<lambda>r. vec (map (\<lambda>w. f w s) r)) m)"
    using rs by (simp add: expand_vec_scalar)
  finally show ?thesis by (simp add: mat_def comp_def)
qed

lemma expand_cube_scalar:
  assumes "wf_cube k n c"
  shows "expand f (cube c) (Rows [Rows [Rows [Elem s]]]) = cube (map (map (map (\<lambda>w. f w s))) c)"
proof -
  have ne: "c \<noteq> []" and ms: "\<And>m. m \<in> set c \<Longrightarrow> wf_mat n m"
    using assms by (auto simp: wf_cube_def)
  have "expand f (cube c) (Rows [Rows [Rows [Elem s]]])
          = Rows (map (\<lambda>a. expand f a (Rows [Rows [Elem s]])) (map mat c))"
    unfolding cube_def using ne rank_mat[OF ms[of "hd c"]]
    by (subst expand_singleton) (simp_all add: hd_map)
  also have "\<dots> = Rows (map (\<lambda>m. mat (map (map (\<lambda>w. f w s)) m)) c)"
    using ms by (auto intro!: expand_mat_scalar[of n])
  finally show ?thesis by (simp add: cube_def comp_def)
qed

lemma expand_t4_scalar:
  assumes "wf_t4 j k n (map q x)"
  shows "expand f (t4 (map q x)) (Rows (map (\<lambda>c. Rows [Rows [Rows [Elem (s c)]]]) x))
           = t4 (map (\<lambda>c. map (map (map (\<lambda>w. f w (s c)))) (q c)) x)"
proof -
  have ne: "x \<noteq> []" and cs: "\<And>c. c \<in> set x \<Longrightarrow> wf_cube k n (q c)"
    using assms by (auto simp: wf_t4_def)
  have "expand f (t4 (map q x)) (Rows (map (\<lambda>c. Rows [Rows [Rows [Elem (s c)]]]) x))
          = Rows (map (\<lambda>c. expand f (cube (q c)) (Rows [Rows [Rows [Elem (s c)]]])) x)"
    unfolding t4_def map_map using ne rank_cube[OF cs[of "hd x"]]
    by (subst expand_zip) (simp_all add: hd_map map_zip_map2)
  also have "\<dots> = Rows (map (\<lambda>c. cube (map (map (map (\<lambda>w. f w (s c)))) (q c))) x)"
    using cs by (auto intro!: expand_cube_scalar[of k n])
  finally show ?thesis by (simp add: t4_def comp_def)
qed

lemma tensor_size_scalars:
  "x \<noteq> [] \<Longrightarrow> tensor_size (Rows (map (\<lambda>c. Rows [Rows [Rows [Elem (s c)]]]) x)) = [length x, 1, 1, 1]"
  by (simp add: tensor_size_Rows hd_map)

lemma mul_sign_t4:
  assumes "wf_t4 j k n x"
  shows "mul A (sign (t4 x))
           (Rows (map (\<lambda>c. Rows [Rows [Rows [Elem
               (div_op A (sum_op A (map (norm1_op A) (concat c))) (num A (j * k * n)))]]]) x))
           = Inr (t4 (map (binarize_cube A) x))"
proof -
  let ?q = "map (map (map sign_of))"
  let ?s = "\<lambda>c. div_op A (sum_op A (map (norm1_op A) (concat c))) (num A (j * k * n))"
  have ne: "x \<noteq> []" using assms by (simp add: wf_t4_def)
  have w: "wf_t4 j k n (map ?q x)"
    using assms by (simp add: wf_t4_def wf_cube_def wf_mat_def)
  have len: "\<And>c. c \<in> set x \<Longrightarrow> length (concat (concat c)) = j * k * n"
    using wf_t4_cube[OF assms] length_concat_cube by fastforce
  have "expand (mul_op A) (t4 (map ?q x)) (Rows (map (\<lambda>c. Rows [Rows [Rows [Elem (?s c)]]]) x))
          = t4 (map (\<lambda>c. map (map (map (\<lambda>w. mul_op A w (?s c)))) (?q c)) x)"
    by (rule expand_t4_scalar[OF w])
  also have "\<dots> = t4 (map (binarize_cube A) x)"
    using len
    by (intro arg_cong[where f = t4] map_cong)
       (simp_all add: binarize_cube_def cube_scale_def comp_def)
  finally show ?thesis
    using ne
    by (simp add: mul_def sign_def map_tensor_t4 broadcast_def broadcastable_def
        tensor_size_t4[OF w] tensor_size_scalars)
qed

lemma nelement_select0_t4:
  "wf_t4 j k n x \<Longrightarrow> \<exists>t0. select0 (t4 x) = Inr t0 \<and> nelement t0 = j * k * n"
proof -
  assume w: "wf_t4 j k n x"
  then have "x \<noteq> []" by (simp add: wf_t4_def)
  then have "wf_cube k n (hd x)" "length (hd x) = j"
    using wf_t4_cube[OF w, of "hd x"] by auto
  then show ?thesis
    using select0_t4[OF w] length_concat_cube[of k n "hd x"] by (simp add: nelement_cube)
qed

section \<open>Rectangular tensors of rank 2 and 4 are matrices and stacks of cubes\<close>

lemma rect_vec: "r \<noteq> [] \<Longrightarrow> rect (vec r)"
  by (cases r) (auto simp: vec_def)

lemma rect_mat: "wf_mat n m \<Longrightarrow> rect (mat m)"
  using wf_mat_hd[of n m]
  by (auto simp: mat_def wf_mat_def rect_vec tensor_size_vec hd_map)

lemma rect_cube: "wf_cube k n c \<Longrightarrow> rect (cube c)"
proof -
  assume w: "wf_cube k n c"
  then have ne: "c \<noteq> []" by (simp add: wf_cube_def)
  have sz: "tensor_size (mat m) = [k, n]" "rect (mat m)" if "m \<in> set c" for m
    using that w tensor_size_mat[of n m] rect_mat[of n m] by (auto simp: wf_cube_def)
  have "hd c \<in> set c" using ne by simp
  then show ?thesis
    using ne sz by (auto simp: cube_def hd_map)
qed

lemma rect_t4: "wf_t4 j k n x \<Longrightarrow> rect (t4 x)"
proof -
  assume w: "wf_t4 j k n x"
  then have ne: "x \<noteq> []" by (simp add: wf_t4_def)
  have sz: "tensor_size (cube c) = [j, k, n]" "rect (cube c)" if "c \<in> set x" for c
    using that w tensor_size_cube[of k n c] rect_cube[of k n c] by (auto simp: wf_t4_def)
  have "hd x \<in> set x" using ne by simp
  then show ?thesis
    using ne sz by (auto simp: t4_def hd_map)
qed

lemma supported_mat: "wf_mat n m \<Longrightarrow> supported (mat m)"
  by (simp add: supported_def rect_mat tensor_size_mat)

lemma supported_t4: "wf_t4 j k n x \<Longrightarrow> supported (t4 x)"
  by (simp add: supported_def rect_t4 tensor_size_t4)

lemma rect_rank0: "length (tensor_size t) = 0 \<Longrightarrow> \<exists>x. t = Elem x"
proof (cases t)
  case (Elem x)
  then show ?thesis by simp
next
  case (Rows ts)
  assume "length (tensor_size t) = 0"
  with Rows show ?thesis by (cases ts) simp_all
qed

lemma rect_Rows:
  assumes "rect t" "length (tensor_size t) = Suc d"
  shows "\<exists>ts. t = Rows ts \<and> ts \<noteq> []
            \<and> (\<forall>u \<in> set ts. rect u \<and> length (tensor_size u) = d \<and> tensor_size (hd ts) = tensor_size u)"
proof (cases t)
  case (Elem x)
  with assms(2) show ?thesis by simp
next
  case (Rows ts)
  from assms(1) have ne: "ts \<noteq> []"
    and all: "\<And>u. u \<in> set ts \<Longrightarrow> rect u \<and> tensor_size u = tensor_size (hd ts)"
    unfolding Rows using rect.simps(2)[of ts] by blast+
  from assms(2) have "length (tensor_size (hd ts)) = d"
    unfolding Rows using ne by (simp add: tensor_size_Rows)
  with all have "\<forall>u \<in> set ts. rect u \<and> length (tensor_size u) = d \<and> tensor_size (hd ts) = tensor_size u"
    by metis
  with ne show ?thesis
    unfolding Rows by blast
qed

lemma list_ex_map:
  assumes "\<And>u. u \<in> set ts \<Longrightarrow> \<exists>x. u = f x \<and> P x"
  shows "\<exists>xs. ts = map f xs \<and> (\<forall>x \<in> set xs. P x)"
  using assms
proof (induction ts)
  case Nil
  then show ?case by simp
next
  case (Cons u ts)
  from Cons.prems[of u] obtain x where x: "u = f x" "P x" by auto
  from Cons.IH Cons.prems obtain xs where xs: "ts = map f xs" "\<forall>x \<in> set xs. P x"
    by (meson list.set_intros(2))
  from x xs have "u # ts = map f (x # xs) \<and> (\<forall>y \<in> set (x # xs). P y)" by simp
  then show ?case by (intro exI[of _ "x # xs"])
qed

lemma rank1_vec:
  assumes "rect t" "length (tensor_size t) = Suc 0"
  shows "\<exists>r. t = vec r \<and> r \<noteq> [] \<and> tensor_size t = [length r]"
proof -
  from rect_Rows[OF assms] obtain ts where
    ts: "t = Rows ts" "ts \<noteq> []" "\<And>u. u \<in> set ts \<Longrightarrow> length (tensor_size u) = 0"
    by blast
  have "\<exists>xs. ts = map Elem xs \<and> (\<forall>x \<in> set xs. True)"
    using ts(3) rect_rank0 by (intro list_ex_map) blast
  then obtain r where r: "ts = map Elem r" by blast
  with ts(2) have "r \<noteq> []" by auto
  then show ?thesis
    using ts(1) r tensor_size_vec[of r] by (auto simp: vec_def)
qed

lemma rank2_mat:
  fixes t :: "'a tensor"
  assumes "rect t" "length (tensor_size t) = Suc (Suc 0)"
  shows "\<exists>n m. t = mat m \<and> wf_mat n m"
proof -
  from rect_Rows[OF assms] obtain ts where
    ts: "t = Rows ts" "ts \<noteq> []"
        "\<And>u. u \<in> set ts \<Longrightarrow> rect u \<and> length (tensor_size u) = Suc 0 \<and> tensor_size (hd ts) = tensor_size u"
    by blast
  have "hd ts \<in> set ts" using ts(2) by simp
  then have "rect (hd ts)" "length (tensor_size (hd ts)) = Suc 0"
    using ts(3) by blast+
  from rank1_vec[OF this] obtain r0 :: "'a list"
    where r0: "tensor_size (hd ts) = [length r0]" "r0 \<noteq> []"
    by blast
  have "\<exists>m. ts = map vec m \<and> (\<forall>r \<in> set m. length r = length r0)"
  proof (intro list_ex_map)
    fix u assume "u \<in> set ts"
    then have u: "rect u" "length (tensor_size u) = Suc 0" "tensor_size u = [length r0]"
      using ts(3) r0 by metis+
    from rank1_vec[OF u(1,2)] obtain r where "u = vec r" "tensor_size u = [length r]" by blast
    with u(3) show "\<exists>r. u = vec r \<and> length r = length r0" by auto
  qed
  then obtain m where m: "ts = map vec m" "\<forall>r \<in> set m. length r = length r0" by blast
  then have w: "wf_mat (length r0) m"
    using ts(2) r0(2) by (auto simp: wf_mat_def)
  have "t = mat m" using ts(1) m(1) by (simp add: mat_def)
  with w show ?thesis by blast
qed

lemma rank3_cube:
  fixes t :: "'a tensor"
  assumes "rect t" "length (tensor_size t) = Suc (Suc (Suc 0))"
  shows "\<exists>k n c. t = cube c \<and> wf_cube k n c"
proof -
  from rect_Rows[OF assms] obtain ts where
    ts: "t = Rows ts" "ts \<noteq> []"
        "\<And>u. u \<in> set ts \<Longrightarrow> rect u \<and> length (tensor_size u) = Suc (Suc 0)
                                \<and> tensor_size (hd ts) = tensor_size u"
    by blast
  have "hd ts \<in> set ts" using ts(2) by simp
  then have "rect (hd ts)" "length (tensor_size (hd ts)) = Suc (Suc 0)"
    using ts(3) by blast+
  from rank2_mat[OF this] obtain n and m0 :: "'a list list"
    where m0: "hd ts = mat m0" "wf_mat n m0"
    by blast
  then have s0: "tensor_size (hd ts) = [length m0, n]"
    by (simp add: tensor_size_mat)
  have "\<exists>c. ts = map mat c \<and> (\<forall>m \<in> set c. length m = length m0 \<and> wf_mat n m)"
  proof (intro list_ex_map)
    fix u assume "u \<in> set ts"
    then have u: "rect u" "length (tensor_size u) = Suc (Suc 0)" "tensor_size u = [length m0, n]"
      using ts(3) s0 by metis+
    from rank2_mat[OF u(1,2)] obtain n' m where m: "u = mat m" "wf_mat n' m" by blast
    then have "tensor_size u = [length m, n']" by (simp add: tensor_size_mat)
    with u(3) m show "\<exists>m. u = mat m \<and> length m = length m0 \<and> wf_mat n m" by auto
  qed
  then obtain c where c: "ts = map mat c" "\<forall>m \<in> set c. length m = length m0 \<and> wf_mat n m"
    by blast
  then have w: "wf_cube (length m0) n c"
    using ts(2) by (auto simp: wf_cube_def)
  have "t = cube c" using ts(1) c(1) by (simp add: cube_def)
  with w show ?thesis by blast
qed

lemma rank4_t4:
  fixes t :: "'a tensor"
  assumes "rect t" "length (tensor_size t) = 4"
  shows "\<exists>j k n x. t = t4 x \<and> wf_t4 j k n x"
proof -
  from assms(2) have "length (tensor_size t) = Suc (Suc (Suc (Suc 0)))" by simp
  from rect_Rows[OF assms(1) this] obtain ts where
    ts: "t = Rows ts" "ts \<noteq> []"
        "\<And>u. u \<in> set ts \<Longrightarrow> rect u \<and> length (tensor_size u) = Suc (Suc (Suc 0))
                                \<and> tensor_size (hd ts) = tensor_size u"
    by blast
  have "hd ts \<in> set ts" using ts(2) by simp
  then have "rect (hd ts)" "length (tensor_size (hd ts)) = Suc (Suc (Suc 0))"
    using ts(3) by blast+
  from rank3_cube[OF this] obtain k n and c0 :: "'a list list list"
    where c0: "hd ts = cube c0" "wf_cube k n c0"
    by blast
  then have s0: "tensor_size (hd ts) = [length c0, k, n]"
    by (simp add: tensor_size_cube)
  have "\<exists>x. ts = map cube x \<and> (\<forall>c \<in> set x. length c = length c0 \<and> wf_cube k n c)"
  proof (intro list_ex_map)
    fix u assume "u \<in> set ts"
    then have u: "rect u" "length (tensor_size u) = Suc (Suc (Suc 0))"
      "tensor_size u = [length c0, k, n]"
      using ts(3) s0 by metis+
    from rank3_cube[OF u(1,2)] obtain k' n' c where c: "u = cube c" "wf_cube k' n' c" by blast
    then have "tensor_size u = [length c, k', n']" by (simp add: tensor_size_cube)
    with u(3) c show "\<exists>c. u = cube c \<and> length c = length c0 \<and> wf_cube k n c" by auto
  qed
  then obtain x where x: "ts = map cube x" "\<forall>c \<in> set x. length c = length c0 \<and> wf_cube k n c"
    by blast
  then have w: "wf_t4 (length c0) k n x"
    using ts(2) by (auto simp: wf_t4_def)
  have "t = t4 x" using ts(1) x(1) by (simp add: t4_def)
  with w show ?thesis by blast
qed

lemma supported_cases:
  assumes "supported t"
  shows "(\<exists>n m. t = mat m \<and> wf_mat n m) \<or> (\<exists>j k n x. t = t4 x \<and> wf_t4 j k n x)"
  using assms rank2_mat[of t] rank4_t4[of t] unfolding supported_def
  by (metis numeral_2_eq_2)

section \<open>One pass of each loop on a supported weight\<close>

lemma wf_mat_center: "wf_mat n m \<Longrightarrow> wf_mat n (map (center_row A) m)"
  by (simp add: wf_mat_def center_row_def)

lemma wf_mat_binarize: "wf_mat n m \<Longrightarrow> wf_mat n (map (binarize_row A) m)"
  by (simp add: wf_mat_def binarize_row_def)

lemma wf_cube_binarize: "wf_cube k n c \<Longrightarrow> wf_cube k n (binarize_cube A c)"
  by (simp add: wf_cube_def wf_mat_def binarize_cube_def)

lemma length_binarize_cube: "length (binarize_cube A c) = length c"
  by (simp add: binarize_cube_def)

lemma length_center_cube: "length (center_cube A c) = length c"
  by (simp add: center_cube_def)

lemma wf_t4_binarize: "wf_t4 j k n x \<Longrightarrow> wf_t4 j k n (map (binarize_cube A) x)"
  by (simp add: wf_t4_def wf_cube_binarize length_binarize_cube)

lemma wf_cube_center:
  assumes "wf_cube k n c"
  shows "wf_cube k n (center_cube A c)"
proof -
  from entries_of_mat[OF assms] have s: "wf_mat n (along_channels c)" "length (along_channels c) = k" by auto
  have "wf_mat n (map2 (map2 f) m (along_channels c)) \<and> length (map2 (map2 f) m (along_channels c)) = k"
    if "m \<in> set c" for m and f :: "'a \<Rightarrow> 'a list \<Rightarrow> 'a"
  proof -
    from that assms have m: "wf_mat n m" "length m = k" by (auto simp: wf_cube_def)
    show ?thesis using wf_mat_map2[OF m(1) s(1)] m(2) s(2) by simp
  qed
  then show ?thesis
    using assms by (simp add: wf_cube_def center_cube_def)
qed

lemma wf_t4_center: "wf_t4 j k n x \<Longrightarrow> wf_t4 j k n (map (center_cube A) x)"
  by (simp add: wf_t4_def wf_cube_center length_center_cube)

lemma center_clamp_supported:
  assumes "supported t"
  shows "\<exists>t'. center_clamp A t = Inr t' \<and> supported t' \<and> tensor_size t' = tensor_size t"
proof -
  from supported_cases[OF assms] consider
    (m) n m where "t = mat m" "wf_mat n m" | (x) j k n x where "t = t4 x" "wf_t4 j k n x"
    by blast
  then show ?thesis
  proof cases
    case m
    then show ?thesis
      using center_clamp_mat[OF m(2), where A = A] wf_mat_center[OF m(2), where A = A]
      by (simp add: supported_mat tensor_size_mat)
  next
    case x
    then show ?thesis
      using center_clamp_t4[OF x(2), where A = A] wf_t4_center[OF x(2), where A = A]
      by (simp add: supported_t4 tensor_size_t4)
  qed
qed

lemma binarize_supported:
  assumes "supported t"
  shows "\<exists>t0 mn t'. select0 t = Inr t0 \<and> scale A t (nelement t0) = Some (Inr mn)
            \<and> mul A (sign t) mn = Inr t' \<and> supported t' \<and> tensor_size t' = tensor_size t"
proof -
  from supported_cases[OF assms] consider
    (m) n m where "t = mat m" "wf_mat n m" | (x) j k n x where "t = t4 x" "wf_t4 j k n x"
    by blast
  then show ?thesis
  proof cases
    case m
    from nelement_select0_mat[OF m(2)] obtain t0 where "select0 (mat m) = Inr t0" "nelement t0 = n"
      by blast
    then show ?thesis
      using scale_mat[OF m(2), where A = A] mul_sign_mat[OF m(2), where A = A] wf_mat_binarize[OF m(2), where A = A] m
      by (simp add: supported_mat tensor_size_mat)
  next
    case x
    from nelement_select0_t4[OF x(2)] obtain t0 where
      "select0 (t4 x) = Inr t0" "nelement t0 = j * k * n"
      by blast
    then show ?thesis
      using scale_t4[OF x(2), of A "j * k * n"] mul_sign_t4[OF x(2), where A = A] wf_t4_binarize[OF x(2), where A = A] x
      by (simp add: supported_t4 tensor_size_t4)
  qed
qed

section \<open>The loops on aligned states\<close>

lemma center_clamp_loop_supported:
  assumes "\<forall>m \<in> set ms. supported (h m)"
  shows "\<exists>h'. center_clamp_loop A ms h = (None, h')
           \<and> (\<forall>a. supported (h a) \<longrightarrow> supported (h' a) \<and> tensor_size (h' a) = tensor_size (h a))"
  using assms
proof (induction ms arbitrary: h)
  case Nil
  then show ?case by simp
next
  case (Cons m ms)
  from center_clamp_supported[where t = "h m" and A = A] Cons.prems obtain t' where
    t': "center_clamp A (h m) = Inr t'" "supported t'" "tensor_size t' = tensor_size (h m)"
    by auto
  let ?h = "h(m := t')"
  have "\<forall>m' \<in> set ms. supported (?h m')"
    using Cons.prems t'(2) by simp
  from Cons.IH[of ?h, OF this] obtain h' where
    h': "center_clamp_loop A ms ?h = (None, h')"
        "\<forall>a. supported (?h a) \<longrightarrow> supported (h' a) \<and> tensor_size (h' a) = tensor_size (?h a)"
    by blast
  have "supported (h' a) \<and> tensor_size (h' a) = tensor_size (h a)" if "supported (h a)" for a
  proof (cases "a = m")
    case True
    then show ?thesis using h'(2)[rule_format, of m] t' by simp
  next
    case False
    then show ?thesis using h'(2)[rule_format, of a] that by simp
  qed
  then show ?case
    using t'(1) h'(1) by simp
qed

lemma center_clamp_loop_target:
  assumes "center_clamp_loop A ms h = (None, h')" "count_list ms m = 1"
  shows "center_clamp A (h m) = Inr (h' m)"
  using assms
proof (induction ms arbitrary: h)
  case Nil
  then show ?case by simp
next
  case (Cons m0 ms)
  from Cons.prems(1) obtain t where
    t: "center_clamp A (h m0) = Inr t" "center_clamp_loop A ms (h(m0 := t)) = (None, h')"
    by (auto split: sum.splits)
  show ?case
  proof (cases "m = m0")
    case True
    then have "count_list ms m0 = 0" using Cons.prems(2) by simp
    then have m0: "m0 \<notin> set ms" by (simp add: count_list_0_iff)
    have "h' m0 = (h(m0 := t)) m0"
      using center_clamp_loop_frame[OF m0, of A "h(m0 := t)"] t(2) by simp
    then show ?thesis using True t(1) by simp
  next
    case False
    then have "count_list ms m = 1" using Cons.prems(2) by simp
    from Cons.IH[OF t(2) this] False show ?thesis by simp
  qed
qed

lemma binarize_loop_supported:
  assumes "\<forall>m \<in> set ms. supported (h m)"
  shows "\<exists>h'. binarize_loop A ms mean h = (None, h')
           \<and> (\<forall>a. supported (h a) \<longrightarrow> supported (h' a) \<and> tensor_size (h' a) = tensor_size (h a))"
  using assms
proof (induction ms arbitrary: h mean)
  case Nil
  then show ?case by simp
next
  case (Cons m ms)
  from binarize_supported[where t = "h m" and A = A] Cons.prems obtain t0 mn t' where
    t': "select0 (h m) = Inr t0" "scale A (h m) (nelement t0) = Some (Inr mn)"
        "mul A (sign (h m)) mn = Inr t'" "supported t'" "tensor_size t' = tensor_size (h m)"
    by auto
  let ?h = "h(m := t')"
  have "\<forall>m' \<in> set ms. supported (?h m')"
    using Cons.prems t'(4) by simp
  from Cons.IH[of ?h "Some mn", OF this] obtain h' where
    h': "binarize_loop A ms (Some mn) ?h = (None, h')"
        "\<forall>a. supported (?h a) \<longrightarrow> supported (h' a) \<and> tensor_size (h' a) = tensor_size (?h a)"
    by blast
  have "supported (h' a) \<and> tensor_size (h' a) = tensor_size (h a)" if "supported (h a)" for a
  proof (cases "a = m")
    case True
    then show ?thesis using h'(2)[rule_format, of m] t' by simp
  next
    case False
    then show ?thesis using h'(2)[rule_format, of a] that by simp
  qed
  then show ?case
    using t'(1,2,3) h'(1) by simp
qed

lemma binarize_loop_target:
  assumes "binarize_loop A ms mean h = (None, h')" "count_list ms m = 1"
    "select0 (h m) = Inr t0" "scale A (h m) (nelement t0) = Some (Inr mn)"
  shows "mul A (sign (h m)) mn = Inr (h' m)"
  using assms
proof (induction ms arbitrary: h mean)
  case Nil
  then show ?case by simp
next
  case (Cons m0 ms)
  show ?case
  proof (cases "m = m0")
    case True
    then have "count_list ms m0 = 0" using Cons.prems(2) by simp
    then have m0: "m0 \<notin> set ms" by (simp add: count_list_0_iff)
    from Cons.prems(1,3,4) True obtain t where
      t: "mul A (sign (h m0)) mn = Inr t" "binarize_loop A ms (Some mn) (h(m0 := t)) = (None, h')"
      by (auto split: sum.splits)
    have "h' m0 = (h(m0 := t)) m0"
      using binarize_loop_frame[OF m0, of A "Some mn" "h(m0 := t)"] t(2) by simp
    then show ?thesis using True t(1) by simp
  next
    case False
    then have c: "count_list ms m = 1" using Cons.prems(2) by simp
    from Cons.prems(1) obtain mean' t where
      t: "binarize_loop A ms mean' (h(m0 := t)) = (None, h')"
      by (auto split: sum.splits option.splits)
    have "select0 ((h(m0 := t)) m) = Inr t0" "scale A ((h(m0 := t)) m) (nelement t0) = Some (Inr mn)"
      using False Cons.prems(3,4) by simp_all
    from Cons.IH[OF t c this] False show ?thesis by simp
  qed
qed

lemma copy_into_same_size: "tensor_size src = tensor_size dst \<Longrightarrow> copy_into dst src = Inr src"
  by (simp add: copy_into_def)

lemma save_loop_ok:
  assumes "\<forall>i \<in> set is. i < length (target_modules b) \<and> i < length (saved_params b)
             \<and> tensor_size (h (target_modules b ! i)) = tensor_size (saved_params b ! i)"
  shows "\<exists>b'. save_loop is (b, h) = (None, (b', h))
           \<and> target_modules b' = target_modules b
           \<and> num_of_params b' = num_of_params b
           \<and> length (saved_params b') = length (saved_params b)
           \<and> (\<forall>i < length (saved_params b).
                 saved_params b' ! i
                   = (if i \<in> set is then h (target_modules b ! i) else saved_params b ! i))"
  using assms
proof (induction "is" arbitrary: b)
  case Nil
  then show ?case by simp
next
  case (Cons i "is")
  let ?t = "h (target_modules b ! i)"
  let ?b = "b\<lparr>saved_params := (saved_params b)[i := ?t]\<rparr>"
  from Cons.prems have i: "i < length (target_modules b)" "i < length (saved_params b)"
    "copy_into (saved_params b ! i) ?t = Inr ?t"
    by (simp_all add: copy_into_same_size)
  have "\<forall>j \<in> set is. j < length (target_modules ?b) \<and> j < length (saved_params ?b)
           \<and> tensor_size (h (target_modules ?b ! j)) = tensor_size (saved_params ?b ! j)"
    using Cons.prems by (auto simp: nth_list_update)
  from Cons.IH[of ?b, OF this] obtain b' where
    b': "save_loop is (?b, h) = (None, (b', h))"
        "target_modules b' = target_modules b" "num_of_params b' = num_of_params b"
        "length (saved_params b') = length (saved_params b)"
        "\<forall>j < length (saved_params b).
            saved_params b' ! j = (if j \<in> set is then h (target_modules b ! j) else saved_params ?b ! j)"
    by auto
  have "\<forall>j < length (saved_params b).
          saved_params b' ! j
            = (if j \<in> set (i # is) then h (target_modules b ! j) else saved_params b ! j)"
    using b'(5) by (auto simp: nth_list_update)
  then show ?case
    using i b'(1-4) by simp
qed

lemma restore_loop_ok:
  assumes "\<forall>i \<in> set is. i < length (target_modules b) \<and> i < length (saved_params b)
             \<and> tensor_size (saved_params b ! i) = tensor_size (h (target_modules b ! i))"
  shows "\<exists>h'. restore_loop is (b, h) = (None, (b, h'))
           \<and> (\<forall>a. (a \<notin> (\<lambda>i. target_modules b ! i) ` set is \<longrightarrow> h' a = h a)
                 \<and> (a \<in> (\<lambda>i. target_modules b ! i) ` set is \<longrightarrow>
                      (\<exists>i \<in> set is. target_modules b ! i = a \<and> h' a = saved_params b ! i)))"
  using assms
proof (induction "is" arbitrary: h)
  case Nil
  then show ?case by simp
next
  case (Cons i "is")
  let ?tm = "target_modules b" and ?sp = "saved_params b"
  let ?h = "h(?tm ! i := ?sp ! i)"
  from Cons.prems have i: "i < length ?tm" "i < length ?sp"
    "copy_into (h (?tm ! i)) (?sp ! i) = Inr (?sp ! i)"
    by (simp_all add: copy_into_same_size)
  have "\<forall>j \<in> set is. j < length ?tm \<and> j < length ?sp
           \<and> tensor_size (?sp ! j) = tensor_size (?h (?tm ! j))"
  proof
    fix j assume j: "j \<in> set is"
    then have "tensor_size (?sp ! j) = tensor_size (h (?tm ! j))"
      "tensor_size (?sp ! i) = tensor_size (h (?tm ! i))"
      using Cons.prems by simp_all
    then have "tensor_size (?sp ! j) = tensor_size (?h (?tm ! j))"
      by (cases "?tm ! j = ?tm ! i") simp_all
    then show "j < length ?tm \<and> j < length ?sp \<and> tensor_size (?sp ! j) = tensor_size (?h (?tm ! j))"
      using Cons.prems j by simp
  qed
  from Cons.IH[of ?h, OF this] obtain h' where
    h': "restore_loop is (b, ?h) = (None, (b, h'))"
        "\<forall>a. (a \<notin> (\<lambda>i. ?tm ! i) ` set is \<longrightarrow> h' a = ?h a)
              \<and> (a \<in> (\<lambda>i. ?tm ! i) ` set is \<longrightarrow> (\<exists>i \<in> set is. ?tm ! i = a \<and> h' a = ?sp ! i))"
    by blast
  have "(a \<notin> (\<lambda>i. ?tm ! i) ` set (i # is) \<longrightarrow> h' a = h a)
          \<and> (a \<in> (\<lambda>i. ?tm ! i) ` set (i # is) \<longrightarrow>
               (\<exists>i \<in> set (i # is). ?tm ! i = a \<and> h' a = ?sp ! i))" for a
    using h'(2)[rule_format, of a] by (cases "a = ?tm ! i") auto
  then show ?case
    using i h'(1) by simp
qed

lemma shadow_aligned_nth:
  "shadow_aligned (b, h) \<longleftrightarrow>
     num_of_params b = length (target_modules b)
     \<and> length (saved_params b) = length (target_modules b)
     \<and> (\<forall>i < length (target_modules b).
           supported (h (target_modules b ! i)) \<and> supported (saved_params b ! i)
           \<and> tensor_size (saved_params b ! i) = tensor_size (h (target_modules b ! i)))"
  by (auto simp: shadow_aligned_def list_all2_conv_all_nth)

lemma binarize_weights_aligned:
  assumes "shadow_aligned (b, h)"
  shows "\<exists>h1 b' h2. center_clamp_loop A (target_modules b) h = (None, h1)
           \<and> priv_save_params (b, h1) = (None, (b', h1))
           \<and> binarize_loop A (target_modules b) None h1 = (None, h2)
           \<and> binarize_weights A (b, h) = (None, (b', h2))
           \<and> target_modules b' = target_modules b
           \<and> (\<forall>i < length (target_modules b). saved_params b' ! i = h1 (target_modules b ! i))
           \<and> shadow_aligned (b', h2)"
proof -
  let ?tm = "target_modules b" and ?sp = "saved_params b"
  from assms have len: "num_of_params b = length ?tm" "length ?sp = length ?tm"
    and al: "\<And>i. i < length ?tm \<Longrightarrow> supported (h (?tm ! i)) \<and> supported (?sp ! i)
                  \<and> tensor_size (?sp ! i) = tensor_size (h (?tm ! i))"
    unfolding shadow_aligned_nth by blast+
  have "\<forall>m \<in> set ?tm. supported (h m)"
    using al by (metis in_set_conv_nth)
  from center_clamp_loop_supported[OF this, of A] obtain h1 where
    h1: "center_clamp_loop A ?tm h = (None, h1)"
        "\<forall>a. supported (h a) \<longrightarrow> supported (h1 a) \<and> tensor_size (h1 a) = tensor_size (h a)"
    by blast
  have s1: "supported (h1 (?tm ! i))" "tensor_size (h1 (?tm ! i)) = tensor_size (?sp ! i)"
    if "i < length ?tm" for i
    using al[OF that] h1(2)[rule_format, of "?tm ! i"] by simp_all
  have "\<forall>i \<in> set [0..<length ?sp]. i < length ?tm \<and> i < length ?sp
           \<and> tensor_size (h1 (?tm ! i)) = tensor_size (?sp ! i)"
    using len s1 by simp
  from save_loop_ok[OF this] obtain b' where
    b': "save_loop [0..<length ?sp] (b, h1) = (None, (b', h1))"
        "target_modules b' = ?tm" "num_of_params b' = num_of_params b"
        "length (saved_params b') = length ?sp"
        "\<forall>i < length ?sp. saved_params b' ! i
            = (if i \<in> set [0..<length ?sp] then h1 (?tm ! i) else ?sp ! i)"
    by blast
  have sv: "saved_params b' ! i = h1 (?tm ! i)" if "i < length ?tm" for i
    using b'(5) that len by simp
  have "\<forall>m \<in> set ?tm. supported (h1 m)"
    using s1 by (metis in_set_conv_nth)
  from binarize_loop_supported[OF this, of A None] obtain h2 where
    h2: "binarize_loop A ?tm None h1 = (None, h2)"
        "\<forall>a. supported (h1 a) \<longrightarrow> supported (h2 a) \<and> tensor_size (h2 a) = tensor_size (h1 a)"
    by blast
  have "shadow_aligned (b', h2)"
    unfolding shadow_aligned_nth
    using b'(2,3,4) len sv s1 h2(2) by simp
  moreover have "binarize_weights A (b, h) = (None, (b', h2))"
    using h1(1) b'(1,2) h2(1)
    by (simp add: binarize_weights_def priv_save_params_def priv_binarize_weights_def)
  ultimately show ?thesis
    using h1(1) b'(1,2) h2(1) sv by (auto simp: priv_save_params_def)
qed

lemma restore_weights_aligned:
  assumes "shadow_aligned (b, h)"
  shows "\<exists>h'. restore_weights (b, h) = (None, (b, h'))
           \<and> shadow_aligned (b, h')
           \<and> (\<forall>i < length (target_modules b). \<exists>j < length (target_modules b).
                 target_modules b ! j = target_modules b ! i
                 \<and> h' (target_modules b ! i) = saved_params b ! j)"
proof -
  let ?tm = "target_modules b" and ?sp = "saved_params b"
  from assms have len: "num_of_params b = length ?tm" "length ?sp = length ?tm"
    and al: "\<And>i. i < length ?tm \<Longrightarrow> supported (h (?tm ! i)) \<and> supported (?sp ! i)
                  \<and> tensor_size (?sp ! i) = tensor_size (h (?tm ! i))"
    unfolding shadow_aligned_nth by blast+
  have "\<forall>i \<in> set [0..<length ?tm]. i < length ?tm \<and> i < length ?sp
           \<and> tensor_size (?sp ! i) = tensor_size (h (?tm ! i))"
    using len al by simp
  from restore_loop_ok[OF this] obtain h' where
    h': "restore_loop [0..<length ?tm] (b, h) = (None, (b, h'))"
        "\<forall>a. a \<in> (\<lambda>i. ?tm ! i) ` set [0..<length ?tm] \<longrightarrow>
               (\<exists>i \<in> set [0..<length ?tm]. ?tm ! i = a \<and> h' a = ?sp ! i)"
    by blast
  have at: "\<exists>j < length ?tm. ?tm ! j = ?tm ! i \<and> h' (?tm ! i) = ?sp ! j" if "i < length ?tm" for i
    using h'(2)[rule_format, of "?tm ! i"] that by auto
  have "supported (h' (?tm ! i)) \<and> tensor_size (?sp ! i) = tensor_size (h' (?tm ! i))"
    if "i < length ?tm" for i
  proof -
    from at[OF that] obtain j where j: "j < length ?tm" "?tm ! j = ?tm ! i" "h' (?tm ! i) = ?sp ! j"
      by blast
    show ?thesis
      using al[OF that] al[OF j(1)] j(2,3) by simp
  qed
  then have "shadow_aligned (b, h')"
    unfolding shadow_aligned_nth using len al by simp
  then show ?thesis
    using h'(1) at len by (simp add: restore_weights_def)
qed

lemma cycles_aligned:
  assumes "shadow_aligned s"
  shows "\<exists>s1. cycles A n s = (None, s1) \<and> shadow_aligned s1
           \<and> target_modules (fst s1) = target_modules (fst s)"
  using assms
proof (induction n arbitrary: s)
  case 0
  then show ?case by simp
next
  case (Suc n)
  obtain b h where s: "s = (b, h)" by (cases s)
  from binarize_weights_aligned[of b h A] Suc.prems s obtain b' h2 where
    b: "binarize_weights A s = (None, (b', h2))" "target_modules b' = target_modules b"
       "shadow_aligned (b', h2)"
    by blast
  from restore_weights_aligned[OF b(3)] obtain h3 where
    r: "restore_weights (b', h2) = (None, (b', h3))" "shadow_aligned (b', h3)"
    by blast
  from Suc.IH[OF r(2)] obtain s1 where
    "cycles A n (b', h3) = (None, s1)" "shadow_aligned s1"
    "target_modules (fst s1) = target_modules b'"
    by auto
  then show ?case
    using b(1,2) r(1) s by simp
qed

section \<open>Construction: the tracked set\<close>

lemma collect_eq:
  "collect h ms (sp, tm) =
     (sp @ map h (eligible_weights ms), tm @ eligible_weights ms)"
  by (induction ms arbitrary: sp tm) (simp_all add: eligible_weights_def)

lemma slice_1_m1_map: "slice_1_m1 (map f xs) = map f (slice_1_m1 xs)"
  by (simp add: slice_1_m1_def drop_map take_map)

lemma slice_1_m1_middle: "slice_1_m1 (x # mid @ [y]) = mid"
  by (simp add: slice_1_m1_def)

lemma Binarizer_init_eq:
  "Binarizer_init h model flag =
     Inr \<lparr>saved_params = map h (if flag \<and> 2 < length (eligible_weights model)
                                 then slice_1_m1 (eligible_weights model) else eligible_weights model),
          target_modules = (if flag \<and> 2 < length (eligible_weights model)
                                 then slice_1_m1 (eligible_weights model) else eligible_weights model),
          num_of_params = length (if flag \<and> 2 < length (eligible_weights model)
                                 then slice_1_m1 (eligible_weights model) else eligible_weights model)\<rparr>"
  by (simp add: Binarizer_init_def collect_eq slice_1_m1_map)

lemma first_last_decomp:
  assumes "3 \<le> length xs"
  shows "xs = hd xs # slice_1_m1 xs @ [last xs]"
proof -
  from assms obtain x ys where xs: "xs = x # ys" and "ys \<noteq> []"
    by (cases xs) fastforce+
  then obtain mid y where ys: "ys = mid @ [y]"
    by (metis rev_exhaust)
  show ?thesis by (simp add: xs ys slice_1_m1_middle)
qed

lemma set_slice_1_m1: "set (slice_1_m1 xs) \<subseteq> set xs"
  unfolding slice_1_m1_def by (meson in_set_dropD in_set_takeD subsetI)

lemma target_modules_init:
  assumes "Binarizer_init h model flag = Inr b"
  shows "target_modules b = (if flag \<and> 2 < length (eligible_weights model)
                              then slice_1_m1 (eligible_weights model) else eligible_weights model)"
  using assms unfolding Binarizer_init_eq by auto

text \<open>
  The constructor leaves the buffers aligned with the targets when the weights of the
  convolution and linear layers have the shapes of such weights.
\<close>

lemma init_aligned:
  assumes "Binarizer_init h model flag = Inr b"
    "\<forall>w \<in> set (eligible_weights model). supported (h w)"
  shows "shadow_aligned (b, h)"
proof -
  let ?tm = "if flag \<and> 2 < length (eligible_weights model)
             then slice_1_m1 (eligible_weights model) else eligible_weights model"
  from assms(1) have b: "target_modules b = ?tm" "saved_params b = map h ?tm"
    "num_of_params b = length ?tm"
    unfolding Binarizer_init_eq by auto
  have "set ?tm \<subseteq> set (eligible_weights model)"
    using set_slice_1_m1[of "eligible_weights model"] by simp
  then have "\<forall>w \<in> set ?tm. supported (h w)"
    using assms(2) by blast
  then have "list_all2 (\<lambda>m p. supported (h m) \<and> supported p \<and> tensor_size p = tensor_size (h m))
               ?tm (map h ?tm)"
    by (simp add: list_all2_map2 list_all2_same)
  then show ?thesis
    unfolding shadow_aligned_def using b by simp
qed

text \<open>
  C3. With \<open>ignore_first_last\<close> true the constructor returns a Binarizer whose buffers
  are the values of its targets, one per target. If the model has at least three
  convolution or linear layers, the targets are the weights of all of them but the first
  and the last (with exactly four: those of index 1 and 2); if it has fewer than three,
  the targets are the weights of all of them (with exactly two: both).
\<close>

theorem exclusion_policy:
  "\<exists>b. Binarizer_init h model True = Inr b
     \<and> saved_params b = map h (target_modules b)
     \<and> num_of_params b = length (target_modules b)
     \<and> (3 \<le> length (eligible_weights model) \<longrightarrow>
          eligible_weights model
            = hd (eligible_weights model) # target_modules b @ [last (eligible_weights model)])
     \<and> (length (eligible_weights model) = 4 \<longrightarrow>
          target_modules b = [eligible_weights model ! 1, eligible_weights model ! 2])
     \<and> (length (eligible_weights model) < 3 \<longrightarrow> target_modules b = eligible_weights model)
     \<and> (length (eligible_weights model) = 2 \<longrightarrow>
          target_modules b = [eligible_weights model ! 0, eligible_weights model ! 1])"
proof -
  let ?e = "eligible_weights model"
  have four: "slice_1_m1 ?e = [?e ! 1, ?e ! 2]" if "length ?e = 4"
  proof -
    from that obtain a b c d where "?e = [a, b, c, d]"
      by (auto simp: length_Suc_conv numeral_eq_Suc)
    then show ?thesis by (simp add: slice_1_m1_def)
  qed
  have two: "?e = [?e ! 0, ?e ! 1]" if "length ?e = 2"
  proof -
    from that obtain a b where "?e = [a, b]"
      by (auto simp: length_Suc_conv numeral_eq_Suc)
    then show ?thesis by simp
  qed
  show ?thesis
    using first_last_decomp[of ?e] four two
    by (auto simp add: Binarizer_init_eq)
qed

text \<open>
  The network \<open>net\<close> has four convolution or linear layers and keeps the weights of the
  second convolution and the first linear layer; a network of one convolution and one
  linear layer keeps both.
\<close>

theorem exclusion_policy_witness:
  "(\<exists>b. Binarizer_init h0 net True = Inr b \<and> target_modules b = [1, 2])
   \<and> (\<exists>b. Binarizer_init h0 [Other, Conv2d 3 None, Linear 4 (Some 12)] True = Inr b
        \<and> target_modules b = [3, 4])"
  using exclusion_policy[of h0 net]
        exclusion_policy[of h0 "[Other, Conv2d 3 None, Linear 4 (Some 12)]"]
  by (auto simp add: eligible_weights_def net_def)

text \<open>
  C4, as the specification states it: constructing the Binarizer on a model without any
  convolution or linear layer raises ConfigurationError. The constructor does not: on a
  model of a container and a batch normalisation it returns.
\<close>

theorem no_eligible_layers_counterexample:
  "Binarizer_init h0 [Other, BatchNorm2d 6 7] True \<noteq> Inl ConfigurationError"
  by (simp add: Binarizer_init_def)

text \<open>
  C4, amended: constructing the Binarizer on a model without any convolution or linear
  layer returns a Binarizer with no target, no buffer and \<open>num_of_params = 0\<close>,
  whatever \<open>ignore_first_last\<close> is.
\<close>

theorem no_eligible_layers:
  "filter eligible model = [] \<Longrightarrow>
     Binarizer_init h model flag
       = Inr \<lparr>saved_params = [], target_modules = [], num_of_params = 0\<rparr>"
  by (simp add: Binarizer_init_eq eligible_weights_def)

theorem no_eligible_layers_witness:
  "filter eligible [Other, BatchNorm2d 6 7] = []
   \<and> Binarizer_init h0 [Other, BatchNorm2d 6 7] True
       = Inr \<lparr>saved_params = [], target_modules = [], num_of_params = 0\<rparr>"
  using no_eligible_layers[of "[Other, BatchNorm2d 6 7]" h0 True]
  by simp

section \<open>Round trip\<close>

text \<open>
  C1. From a state in which the buffers are aligned with the targets (the constructor
  leaves such a state, \<open>init_aligned\<close>), any number \<open>n\<close> of
  \<open>binarize_weights(); restore_weights()\<close> cycles returns without exception, and so does
  one more cycle; after the \<open>restore_weights()\<close> of that cycle every target holds the
  value of its buffer, which is the value the save step of that cycle has copied into it:
  the value the target had when the centring loop of that \<open>binarize_weights()\<close> ended.
\<close>

theorem round_trip:
  assumes "shadow_aligned s"
  shows "\<exists>s1 h1 s2 s3.
           cycles A n s = (None, s1)
         \<and> center_clamp_loop A (target_modules (fst s1)) (snd s1) = (None, h1)
         \<and> priv_save_params (fst s1, h1) = (None, (fst s2, h1))
         \<and> binarize_weights A s1 = (None, s2)
         \<and> restore_weights s2 = (None, s3)
         \<and> target_modules (fst s1) = target_modules (fst s)
         \<and> (\<forall>i < length (target_modules (fst s)).
               saved_params (fst s2) ! i = h1 (target_modules (fst s) ! i)
               \<and> snd s3 (target_modules (fst s) ! i) = saved_params (fst s2) ! i)"
proof -
  from cycles_aligned[OF assms, of A n] obtain b h where
    c: "cycles A n s = (None, (b, h))" "shadow_aligned (b, h)"
       "target_modules b = target_modules (fst s)"
    by (metis fst_conv surj_pair)
  let ?tm = "target_modules b"
  from binarize_weights_aligned[OF c(2), of A] obtain h1 b' h2 where
    bw: "center_clamp_loop A ?tm h = (None, h1)"
        "priv_save_params (b, h1) = (None, (b', h1))"
        "binarize_weights A (b, h) = (None, (b', h2))"
        "target_modules b' = ?tm"
        "\<forall>i < length ?tm. saved_params b' ! i = h1 (?tm ! i)"
        "shadow_aligned (b', h2)"
    by blast
  from restore_weights_aligned[OF bw(6)] obtain h3 where
    rw: "restore_weights (b', h2) = (None, (b', h3))"
        "\<forall>i < length ?tm. \<exists>j < length ?tm. ?tm ! j = ?tm ! i \<and> h3 (?tm ! i) = saved_params b' ! j"
    unfolding bw(4) by blast
  have "saved_params b' ! i = h1 (?tm ! i) \<and> h3 (?tm ! i) = saved_params b' ! i"
    if "i < length ?tm" for i
  proof -
    from rw(2) that obtain j where
      j: "j < length ?tm" "?tm ! j = ?tm ! i" "h3 (?tm ! i) = saved_params b' ! j"
      by blast
    then have "saved_params b' ! j = saved_params b' ! i"
      using bw(5) that by simp
    then show ?thesis
      using j(3) bw(5) that by simp
  qed
  then show ?thesis
    using c(1,3) bw(1,2,3) rw(1) by auto
qed

theorem round_trip_witness:
  "shadow_aligned (b0, h0)
   \<and> (\<exists>s1 h1 s2 s3.
           cycles exact 2 (b0, h0) = (None, s1)
         \<and> center_clamp_loop exact [1, 2] (snd s1) = (None, h1)
         \<and> binarize_weights exact s1 = (None, s2)
         \<and> restore_weights s2 = (None, s3)
         \<and> snd s3 1 = saved_params (fst s2) ! 0 \<and> saved_params (fst s2) ! 0 = h1 1
         \<and> snd s3 2 = saved_params (fst s2) ! 1 \<and> saved_params (fst s2) ! 1 = h1 2)"
proof -
  have a: "shadow_aligned (b0, h0)"
    by code_simp
  have t: "target_modules (fst (b0, h0)) = [1, 2]"
    by (simp add: b0_def)
  from round_trip[OF a, of exact 2] obtain s1 h1 s2 s3 where
    r: "cycles exact 2 (b0, h0) = (None, s1)"
       "center_clamp_loop exact (target_modules (fst s1)) (snd s1) = (None, h1)"
       "binarize_weights exact s1 = (None, s2)"
       "restore_weights s2 = (None, s3)"
       "target_modules (fst s1) = target_modules (fst (b0, h0))"
       "\<forall>i < length (target_modules (fst (b0, h0))).
          saved_params (fst s2) ! i = h1 (target_modules (fst (b0, h0)) ! i)
          \<and> snd s3 (target_modules (fst (b0, h0)) ! i) = saved_params (fst s2) ! i"
    by blast
  from r(6)[rule_format, of 0] r(6)[rule_format, of 1]
  have v: "snd s3 1 = saved_params (fst s2) ! 0 \<and> saved_params (fst s2) ! 0 = h1 1
         \<and> snd s3 2 = saved_params (fst s2) ! 1 \<and> saved_params (fst s2) ! 1 = h1 2"
    unfolding t by simp
  have r2: "center_clamp_loop exact [1, 2] (snd s1) = (None, h1)"
    using r(2) unfolding r(5) t .
  from a r(1) r2 r(3,4) v show ?thesis
    by blast
qed

section \<open>What the buffers hold after the save step\<close>

lemma center_clamp_image:
  assumes "center_clamp A t = Inr c"
  shows "\<exists>u. c = map_tensor (clamp_of (- 1) 1) u"
  using assms by (auto simp: center_clamp_def clamp_def split: sum.splits)

lemma clamp_of_range:
  assumes "\<not> (1 :: 'a :: {zero,one,uminus,ord}) < - 1" "\<not> (- 1 :: 'a) < - 1" "\<not> (1 :: 'a) < 1"
  shows "\<not> clamp_of (- 1) 1 (y :: 'a) < - 1 \<and> \<not> 1 < clamp_of (- 1) 1 y"
  using assms by (simp add: clamp_of_def Let_def)

text \<open>
  C6, as the specification states it: every tracked parameter is centred on its mean
  along dimension 1, clamped to [-1, 1] and only then copied, so that its buffer holds
  the clamped, centred weight. A parameter that two tracked modules share is tracked
  twice, and the centring loop centres and clamps it twice before the save step: with
  the shared weight (3, 1, 0, 0) the call returns, the centred and clamped weight is
  (1, 0, -1, -1), and both buffers hold (1, 1/4, -3/4, -3/4).
\<close>

theorem shadow_holds_clamped_centered_counterexample:
  "Binarizer_init (snd (tied (mat [[3, 1, 0, 0]]))) tied_net True = Inr (fst (tied (mat [[3, 1, 0, 0]])))
   \<and> shadow_aligned (tied (mat [[3, 1, 0, 0]]))
   \<and> snd (tied (mat [[3, 1, 0, 0]])) 2 = mat [[3, 1, 0, 0]]
   \<and> center_clamp exact (mat [[3, 1, 0, 0]]) = Inr (mat [[1, 0, - 1, - 1]])
   \<and> fst (binarize_weights exact (tied (mat [[3, 1, 0, 0]]))) = None
   \<and> saved_params (fst (snd (binarize_weights exact (tied (mat [[3, 1, 0, 0]])))))
        = [mat [[1, 1 / 4, - (3 / 4), - (3 / 4)]], mat [[1, 1 / 4, - (3 / 4), - (3 / 4)]]]"
  by code_simp

text \<open>
  C6, amended: from an aligned state, \<open>binarize_weights()\<close> returns; the buffer of a
  target that occurs once in the list of targets then holds the value the centring loop
  has left in the target, which is the target's value at the call, centred on its mean
  along dimension 1 (the row of a matrix; the input channels of a convolution weight) and
  then clamped to [-1, 1]: no entry of it is below -1 or above 1. The save step runs
  after the centring loop and before the binarisation loop.
\<close>

theorem shadow_holds_clamped_centered:
  fixes A :: "'a::{zero,one,uminus,ord} arith"
  assumes "shadow_aligned (b, h)" "i < length (target_modules b)"
    "count_list (target_modules b) (target_modules b ! i) = 1"
  shows "\<exists>h1 b' h2 c.
           center_clamp_loop A (target_modules b) h = (None, h1)
         \<and> priv_save_params (b, h1) = (None, (b', h1))
         \<and> binarize_weights A (b, h) = (None, (b', h2))
         \<and> center_clamp A (h (target_modules b ! i)) = Inr c
         \<and> h1 (target_modules b ! i) = c
         \<and> saved_params b' ! i = c
         \<and> (\<not> (1 :: 'a) < - 1 \<and> \<not> (- 1 :: 'a) < - 1 \<and> \<not> (1 :: 'a) < 1 \<longrightarrow>
               (\<forall>x \<in> set_tensor c. \<not> x < - 1 \<and> \<not> 1 < x))
         \<and> (\<forall>n m. h (target_modules b ! i) = mat m \<and> wf_mat n m \<longrightarrow>
               c = mat (map (\<lambda>r. map (\<lambda>x. clamp_of (- 1) 1
                                         (add_op A x (mul_op A (mean_op A r) (- 1)))) r) m))
         \<and> (\<forall>j k n x. h (target_modules b ! i) = t4 x \<and> wf_t4 j k n x \<longrightarrow>
               c = t4 (map (\<lambda>c. map (\<lambda>m. map2 (map2 (\<lambda>x xs. clamp_of (- 1) 1
                                     (add_op A x (mul_op A (mean_op A xs) (- 1)))))
                                   m (along_channels c)) c) x))"
proof -
  let ?tm = "target_modules b"
  from binarize_weights_aligned[OF assms(1), of A] obtain h1 b' h2 where
    bw: "center_clamp_loop A ?tm h = (None, h1)"
        "priv_save_params (b, h1) = (None, (b', h1))"
        "binarize_weights A (b, h) = (None, (b', h2))"
        "\<forall>i < length ?tm. saved_params b' ! i = h1 (?tm ! i)"
    by blast
  have cc: "center_clamp A (h (?tm ! i)) = Inr (h1 (?tm ! i))"
    by (rule center_clamp_loop_target[OF bw(1) assms(3)])
  have m: "h1 (?tm ! i) = mat (map (\<lambda>r. map (\<lambda>x. clamp_of (- 1) 1
                                         (add_op A x (mul_op A (mean_op A r) (- 1)))) r) m)"
    if "h (?tm ! i) = mat m" "wf_mat n m" for n m
    using cc center_clamp_mat[OF that(2), of A] that(1) by (simp add: center_row_def[abs_def])
  have x: "h1 (?tm ! i) = t4 (map (\<lambda>c. map (\<lambda>m. map2 (map2 (\<lambda>x xs. clamp_of (- 1) 1
                                     (add_op A x (mul_op A (mean_op A xs) (- 1)))))
                                   m (along_channels c)) c) x)"
    if "h (?tm ! i) = t4 x" "wf_t4 j k n x" for j k n x
    using cc center_clamp_t4[OF that(2), of A] that(1) by (simp add: center_cube_def[abs_def])
  have r: "\<forall>x \<in> set_tensor (h1 (?tm ! i)). \<not> x < - 1 \<and> \<not> 1 < x"
    if "\<not> (1 :: 'a) < - 1 \<and> \<not> (- 1 :: 'a) < - 1 \<and> \<not> (1 :: 'a) < 1"
  proof -
    from center_clamp_image[OF cc] obtain u where u: "h1 (?tm ! i) = map_tensor (clamp_of (- 1) 1) u"
      by blast
    show ?thesis
      unfolding u using clamp_of_range that by (auto simp: tensor.set_map)
  qed
  have sv: "saved_params b' ! i = h1 (?tm ! i)"
    by (rule bw(4)[rule_format, OF assms(2)])
  have R: "\<not> (1 :: 'a) < - 1 \<and> \<not> (- 1 :: 'a) < - 1 \<and> \<not> (1 :: 'a) < 1 \<longrightarrow>
             (\<forall>x \<in> set_tensor (h1 (?tm ! i)). \<not> x < - 1 \<and> \<not> 1 < x)"
    using r by (rule impI)
  have M: "\<forall>n m. h (?tm ! i) = mat m \<and> wf_mat n m \<longrightarrow>
             h1 (?tm ! i) = mat (map (\<lambda>r. map (\<lambda>x. clamp_of (- 1) 1
                                         (add_op A x (mul_op A (mean_op A r) (- 1)))) r) m)"
    using m by blast
  have X: "\<forall>j k n x. h (?tm ! i) = t4 x \<and> wf_t4 j k n x \<longrightarrow>
             h1 (?tm ! i) = t4 (map (\<lambda>c. map (\<lambda>m. map2 (map2 (\<lambda>x xs. clamp_of (- 1) 1
                                     (add_op A x (mul_op A (mean_op A xs) (- 1)))))
                                   m (along_channels c)) c) x)"
    using x by blast
  show ?thesis
    apply (rule exI[of _ h1], rule exI[of _ b'], rule exI[of _ h2], rule exI[of _ "h1 (?tm ! i)"])
    apply (intro conjI)
            apply (rule bw(1))
           apply (rule bw(2))
          apply (rule bw(3))
         apply (rule cc)
        apply (rule refl)
       apply (rule sv)
      apply (rule R)
     apply (rule M)
    apply (rule X)
    done
qed

theorem shadow_holds_clamped_centered_witness:
  "shadow_aligned (b0, h0) \<and> 1 < length (target_modules b0)
   \<and> count_list (target_modules b0) (target_modules b0 ! 1) = 1
   \<and> h0 (target_modules b0 ! 1) = mat [[3, - 1, 1, 1], [0, 0, 0, 0]]
   \<and> (\<exists>b' h2. binarize_weights exact (b0, h0) = (None, (b', h2))
          \<and> saved_params b' ! 1 = mat [[1, - 1, 0, 0], [0, 0, 0, 0]]
          \<and> (\<forall>x \<in> set_tensor (saved_params b' ! 1). \<not> x < - 1 \<and> \<not> 1 < x))"
proof -
  have a: "shadow_aligned (b0, h0)"
    by code_simp
  have d: "1 < length (target_modules b0)"
    "count_list (target_modules b0) (target_modules b0 ! 1) = 1"
    by (simp_all add: b0_def)
  have w: "h0 (target_modules b0 ! 1) = mat [[3, - 1, 1, 1], [0, 0, 0, 0]]"
    "wf_mat 4 [[3, - 1, 1, 1], [0, 0, 0, 0 :: rat]]"
    by (simp_all add: b0_def h0_def w2_def wf_mat_def)
  have c: "map (\<lambda>r. map (\<lambda>x. clamp_of (- 1) 1
                 (add_op exact x (mul_op exact (mean_op exact r) (- 1)))) r)
             [[3, - 1, 1, 1], [0, 0, 0, 0 :: rat]] = [[1, - 1, 0, 0], [0, 0, 0, 0]]"
    by (simp add: exact_def clamp_of_def)
  have o: "\<not> (1 :: rat) < - 1 \<and> \<not> (- 1 :: rat) < - 1 \<and> \<not> (1 :: rat) < 1"
    by simp
  from shadow_holds_clamped_centered[OF a d, of exact] obtain h1 b' h2 c where
    r: "binarize_weights exact (b0, h0) = (None, (b', h2))"
       "saved_params b' ! 1 = c"
       "\<not> (1 :: rat) < - 1 \<and> \<not> (- 1 :: rat) < - 1 \<and> \<not> (1 :: rat) < 1 \<longrightarrow>
               (\<forall>x \<in> set_tensor c. \<not> x < - 1 \<and> \<not> 1 < x)"
       "\<forall>n m. h0 (target_modules b0 ! 1) = mat m \<and> wf_mat n m \<longrightarrow>
               c = mat (map (\<lambda>r. map (\<lambda>x. clamp_of (- 1) 1
                          (add_op exact x (mul_op exact (mean_op exact r) (- 1)))) r) m)"
    by (elim exE conjE) (rule that; assumption)
  have "c = mat (map (\<lambda>r. map (\<lambda>x. clamp_of (- 1) 1
                 (add_op exact x (mul_op exact (mean_op exact r) (- 1)))) r)
              [[3, - 1, 1, 1], [0, 0, 0, 0]])"
    by (rule r(4)[rule_format, OF conjI[OF w]])
  then have "c = mat [[1, - 1, 0, 0], [0, 0, 0, 0]]"
    unfolding c .
  then have e: "saved_params b' ! 1 = mat [[1, - 1, 0, 0], [0, 0, 0, 0]]"
    using r(2) by simp
  have "\<forall>x \<in> set_tensor c. \<not> x < - 1 \<and> \<not> 1 < x"
    using r(3) o by (rule mp)
  then have g: "\<forall>x \<in> set_tensor (saved_params b' ! 1). \<not> x < - 1 \<and> \<not> 1 < x"
    unfolding r(2) .
  have "\<exists>b' h2. binarize_weights exact (b0, h0) = (None, (b', h2))
          \<and> saved_params b' ! 1 = mat [[1, - 1, 0, 0], [0, 0, 0, 0]]
          \<and> (\<forall>x \<in> set_tensor (saved_params b' ! 1). \<not> x < - 1 \<and> \<not> 1 < x)"
    by (rule exI[of _ b'], rule exI[of _ h2]) (intro conjI r(1) e g)
  then show ?thesis
    by (intro conjI a d w(1))
qed

section \<open>What the targets hold after binarize_weights\<close>

lemma sign_of_cases:
  "sign_of w = 1 \<or> sign_of w = - 1 \<or> sign_of w = 0"
  by (simp add: sign_of_def)

lemma mul_sign_cases:
  assumes "mul_op A 1 s = s \<and> mul_op A (- 1) s = - s \<and> mul_op A 0 s = 0"
  shows "mul_op A (sign_of w) s = s \<or> mul_op A (sign_of w) s = - s \<or> mul_op A (sign_of w) s = 0"
  using assms sign_of_cases[of w] by auto

text \<open>
  C2, as the specification states it: after \<open>binarize_weights()\<close> every tracked
  parameter of rank 4 or 2 holds the sign of its saved value times the scale of that
  value, every entry the scale, its negation or 0. A parameter that two tracked modules
  share is tracked twice, and the binarisation loop binarises it twice: with the shared
  weight (1, -1, 0, 0) the call returns, the saved value is (1, -1, 0, 0), its
  scale is 1/2 and its signs times the scale are (1/2, -1/2, 0, 0), but the parameter
  holds (1/4, -1/4, 0, 0).
\<close>

theorem binarized_weights_counterexample:
  "Binarizer_init (snd (tied (mat [[1, - 1, 0, 0]]))) tied_net True
     = Inr (fst (tied (mat [[1, - 1, 0, 0]])))
   \<and> shadow_aligned (tied (mat [[1, - 1, 0, 0]]))
   \<and> fst (binarize_weights exact (tied (mat [[1, - 1, 0, 0]]))) = None
   \<and> saved_params (fst (snd (binarize_weights exact (tied (mat [[1, - 1, 0, 0]])))))
        = [mat [[1, - 1, 0, 0]], mat [[1, - 1, 0, 0]]]
   \<and> row_scale exact [1, - 1, 0, 0] = 1 / 2
   \<and> map (\<lambda>w. mul_op exact (sign_of w) (row_scale exact [1, - 1, 0, 0])) [1, - 1, 0, 0]
        = [1 / 2, - (1 / 2), 0, 0]
   \<and> snd (snd (binarize_weights exact (tied (mat [[1, - 1, 0, 0]])))) 2
        = mat [[1 / 4, - (1 / 4), 0, 0]]"
  by code_simp

text \<open>
  C2, amended: from an aligned state, \<open>binarize_weights()\<close> returns, and the saved value
  of every target is a matrix or a tensor of four dimensions. For a target that occurs
  once in the list of targets: if its saved value is the matrix \<open>m\<close>, the target holds,
  entry by entry, the sign of \<open>w\<close> times the scale of the row of \<open>w\<close>, the L1 norm of
  the row divided by its length (the number of input units); if it is the tensor \<open>x\<close>
  of four dimensions, the target holds the sign of \<open>w\<close> times the scale of the output
  channel of \<open>w\<close>, the L1 norms along the last dimension summed over the input channels
  and the kernel rows and divided by the number of entries of the channel. The sign of 0
  is 0 (0 is not below itself), and every entry is the scale, its negation or 0, where the
  product of 1, -1 and 0 with the scale is the scale, its negation and 0.
\<close>

theorem binarized_weights:
  fixes A :: "'a::{zero,one,uminus,ord} arith"
  assumes "shadow_aligned (b, h)" "i < length (target_modules b)"
    "count_list (target_modules b) (target_modules b ! i) = 1"
  shows "\<exists>b' h2.
           binarize_weights A (b, h) = (None, (b', h2))
         \<and> ((\<exists>n m. saved_params b' ! i = mat m \<and> wf_mat n m)
              \<or> (\<exists>j k n x. saved_params b' ! i = t4 x \<and> wf_t4 j k n x))
         \<and> (\<forall>n m. saved_params b' ! i = mat m \<and> wf_mat n m \<longrightarrow>
                h2 (target_modules b ! i)
                  = mat (map (\<lambda>r. map (\<lambda>w. mul_op A (sign_of w)
                                             (div_op A (norm1_op A r) (num A n))) r) m)
                \<and> (\<forall>r \<in> set m. row_scale A r = div_op A (norm1_op A r) (num A n)
                      \<and> (\<forall>w \<in> set r.
                           mul_op A 1 (row_scale A r) = row_scale A r
                           \<and> mul_op A (- 1) (row_scale A r) = - row_scale A r
                           \<and> mul_op A 0 (row_scale A r) = 0 \<longrightarrow>
                             mul_op A (sign_of w) (row_scale A r) = row_scale A r
                           \<or> mul_op A (sign_of w) (row_scale A r) = - row_scale A r
                           \<or> mul_op A (sign_of w) (row_scale A r) = 0)))
         \<and> (\<forall>j k n x. saved_params b' ! i = t4 x \<and> wf_t4 j k n x \<longrightarrow>
                h2 (target_modules b ! i)
                  = t4 (map (\<lambda>c. map (map (map (\<lambda>w. mul_op A (sign_of w)
                            (div_op A (sum_op A (map (norm1_op A) (concat c)))
                                      (num A (j * k * n)))))) c) x)
                \<and> (\<forall>c \<in> set x. cube_scale A c
                        = div_op A (sum_op A (map (norm1_op A) (concat c))) (num A (j * k * n))
                      \<and> (\<forall>w \<in> set (concat (concat c)).
                           mul_op A 1 (cube_scale A c) = cube_scale A c
                           \<and> mul_op A (- 1) (cube_scale A c) = - cube_scale A c
                           \<and> mul_op A 0 (cube_scale A c) = 0 \<longrightarrow>
                             mul_op A (sign_of w) (cube_scale A c) = cube_scale A c
                           \<or> mul_op A (sign_of w) (cube_scale A c) = - cube_scale A c
                           \<or> mul_op A (sign_of w) (cube_scale A c) = 0)))
         \<and> (\<not> (0 :: 'a) < 0 \<longrightarrow> sign_of (0 :: 'a) = 0)"
proof -
  let ?tm = "target_modules b"
  from binarize_weights_aligned[OF assms(1), of A] obtain h1 b' h2 where
    bw: "binarize_loop A ?tm None h1 = (None, h2)"
        "binarize_weights A (b, h) = (None, (b', h2))"
        "\<forall>i < length ?tm. saved_params b' ! i = h1 (?tm ! i)"
        "target_modules b' = ?tm"
        "shadow_aligned (b', h2)"
    by blast
  have sv: "saved_params b' ! i = h1 (?tm ! i)"
    using bw(3) assms(2) by simp
  have "supported (saved_params b' ! i)"
    using bw(5) assms(2) unfolding shadow_aligned_nth bw(4) by simp
  from supported_cases[OF this]
  have cover: "(\<exists>n m. saved_params b' ! i = mat m \<and> wf_mat n m)
                 \<or> (\<exists>j k n x. saved_params b' ! i = t4 x \<and> wf_t4 j k n x)" .
  have m: "h2 (?tm ! i) = mat (map (binarize_row A) m)"
    if "saved_params b' ! i = mat m" "wf_mat n m" for n m
  proof -
    from nelement_select0_mat[OF that(2)] obtain t0 where
      t0: "select0 (mat m) = Inr t0" "nelement t0 = n" by blast
    have "mul A (sign (h1 (?tm ! i))) (Rows (map (\<lambda>r. Rows [Elem (row_scale A r)]) m))
            = Inr (h2 (?tm ! i))"
      using binarize_loop_target[OF bw(1) assms(3), of t0] t0 scale_mat[OF that(2), of A]
        that(1) sv by simp
    then show ?thesis
      using mul_sign_mat[OF that(2), of A] that(1) sv by simp
  qed
  have x: "h2 (?tm ! i) = t4 (map (binarize_cube A) x)"
    if "saved_params b' ! i = t4 x" "wf_t4 j k n x" for j k n x
  proof -
    from nelement_select0_t4[OF that(2)] obtain t0 where
      t0: "select0 (t4 x) = Inr t0" "nelement t0 = j * k * n" by blast
    have "mul A (sign (h1 (?tm ! i)))
            (Rows (map (\<lambda>c. Rows [Rows [Rows [Elem
               (div_op A (sum_op A (map (norm1_op A) (concat c))) (num A (j * k * n)))]]]) x))
            = Inr (h2 (?tm ! i))"
      using binarize_loop_target[OF bw(1) assms(3), of t0] t0
        scale_t4[OF that(2), of A "j * k * n"] that(1) sv by simp
    then show ?thesis
      using mul_sign_t4[OF that(2), of A] that(1) sv by simp
  qed
  have rs: "row_scale A r = div_op A (norm1_op A r) (num A n)"
    if "wf_mat n m" "r \<in> set m" for n m and r :: "'a list"
    using that by (simp add: row_scale_def wf_mat_def)
  have cs: "cube_scale A c = div_op A (sum_op A (map (norm1_op A) (concat c))) (num A (j * k * n))"
    if "wf_t4 j k n x" "c \<in> set x" for j k n x and c :: "'a list list list"
    using wf_t4_cube[OF that] length_concat_cube[of k n c] by (simp add: cube_scale_def)
  have M: "h2 (?tm ! i)
             = mat (map (\<lambda>r. map (\<lambda>w. mul_op A (sign_of w)
                                        (div_op A (norm1_op A r) (num A n))) r) m)
           \<and> (\<forall>r \<in> set m. row_scale A r = div_op A (norm1_op A r) (num A n)
                \<and> (\<forall>w \<in> set r.
                      mul_op A 1 (row_scale A r) = row_scale A r
                      \<and> mul_op A (- 1) (row_scale A r) = - row_scale A r
                      \<and> mul_op A 0 (row_scale A r) = 0 \<longrightarrow>
                        mul_op A (sign_of w) (row_scale A r) = row_scale A r
                      \<or> mul_op A (sign_of w) (row_scale A r) = - row_scale A r
                      \<or> mul_op A (sign_of w) (row_scale A r) = 0))"
    if s: "saved_params b' ! i = mat m \<and> wf_mat n m" for n m
  proof
    have e: "map (binarize_row A) m
            = map (\<lambda>r. map (\<lambda>w. mul_op A (sign_of w) (div_op A (norm1_op A r) (num A n))) r) m"
      using rs[of n m] s by (intro map_cong) (simp_all add: binarize_row_def)
    from m[OF conjunct1[OF s] conjunct2[OF s]]
    show "h2 (?tm ! i)
             = mat (map (\<lambda>r. map (\<lambda>w. mul_op A (sign_of w)
                                        (div_op A (norm1_op A r) (num A n))) r) m)"
      unfolding e .
    show "\<forall>r \<in> set m. row_scale A r = div_op A (norm1_op A r) (num A n)
                \<and> (\<forall>w \<in> set r.
                      mul_op A 1 (row_scale A r) = row_scale A r
                      \<and> mul_op A (- 1) (row_scale A r) = - row_scale A r
                      \<and> mul_op A 0 (row_scale A r) = 0 \<longrightarrow>
                        mul_op A (sign_of w) (row_scale A r) = row_scale A r
                      \<or> mul_op A (sign_of w) (row_scale A r) = - row_scale A r
                      \<or> mul_op A (sign_of w) (row_scale A r) = 0)"
      using rs[of n m] s mul_sign_cases[of A] by blast
  qed
  have X: "h2 (?tm ! i)
             = t4 (map (\<lambda>c. map (map (map (\<lambda>w. mul_op A (sign_of w)
                       (div_op A (sum_op A (map (norm1_op A) (concat c)))
                                 (num A (j * k * n)))))) c) x)
           \<and> (\<forall>c \<in> set x. cube_scale A c
                   = div_op A (sum_op A (map (norm1_op A) (concat c))) (num A (j * k * n))
                \<and> (\<forall>w \<in> set (concat (concat c)).
                      mul_op A 1 (cube_scale A c) = cube_scale A c
                      \<and> mul_op A (- 1) (cube_scale A c) = - cube_scale A c
                      \<and> mul_op A 0 (cube_scale A c) = 0 \<longrightarrow>
                        mul_op A (sign_of w) (cube_scale A c) = cube_scale A c
                      \<or> mul_op A (sign_of w) (cube_scale A c) = - cube_scale A c
                      \<or> mul_op A (sign_of w) (cube_scale A c) = 0))"
    if s: "saved_params b' ! i = t4 x \<and> wf_t4 j k n x" for j k n x
  proof
    have e: "map (binarize_cube A) x
            = map (\<lambda>c. map (map (map (\<lambda>w. mul_op A (sign_of w)
                       (div_op A (sum_op A (map (norm1_op A) (concat c)))
                                 (num A (j * k * n)))))) c) x"
      using cs[of j k n x] s by (intro map_cong) (simp_all add: binarize_cube_def)
    from x[OF conjunct1[OF s] conjunct2[OF s]]
    show "h2 (?tm ! i)
             = t4 (map (\<lambda>c. map (map (map (\<lambda>w. mul_op A (sign_of w)
                       (div_op A (sum_op A (map (norm1_op A) (concat c)))
                                 (num A (j * k * n)))))) c) x)"
      unfolding e .
    show "\<forall>c \<in> set x. cube_scale A c
                   = div_op A (sum_op A (map (norm1_op A) (concat c))) (num A (j * k * n))
                \<and> (\<forall>w \<in> set (concat (concat c)).
                      mul_op A 1 (cube_scale A c) = cube_scale A c
                      \<and> mul_op A (- 1) (cube_scale A c) = - cube_scale A c
                      \<and> mul_op A 0 (cube_scale A c) = 0 \<longrightarrow>
                        mul_op A (sign_of w) (cube_scale A c) = cube_scale A c
                      \<or> mul_op A (sign_of w) (cube_scale A c) = - cube_scale A c
                      \<or> mul_op A (sign_of w) (cube_scale A c) = 0)"
      using cs[of j k n x] s mul_sign_cases[of A] by blast
  qed
  have Z: "\<not> (0 :: 'a) < 0 \<longrightarrow> sign_of (0 :: 'a) = 0"
    by (simp add: sign_of_def)
  show ?thesis
    apply (rule exI[of _ b'], rule exI[of _ h2])
    apply (intro conjI)
        apply (rule bw(2))
       apply (rule cover)
      apply (rule allI, rule allI, rule impI, erule M)
     apply (rule allI, rule allI, rule allI, rule allI, rule impI, erule X)
    apply (rule Z)
    done
qed

theorem binarized_weights_witness:
  "shadow_aligned (b0, h0) \<and> 0 < length (target_modules b0) \<and> 1 < length (target_modules b0)
   \<and> count_list (target_modules b0) (target_modules b0 ! 0) = 1
   \<and> count_list (target_modules b0) (target_modules b0 ! 1) = 1
   \<and> wf_mat 4 [[1, - 1, 0, 0], [0, 0, 0, 0 :: rat]]
   \<and> wf_t4 2 1 2 [[[[0, - 1]], [[0, 1 :: rat]]]]
   \<and> mul_op exact 1 (row_scale exact [1, - 1, 0, 0]) = row_scale exact [1, - 1, 0, 0]
   \<and> mul_op exact (- 1) (row_scale exact [1, - 1, 0, 0]) = - row_scale exact [1, - 1, 0, 0]
   \<and> mul_op exact 0 (row_scale exact [1, - 1, 0, 0]) = 0
   \<and> \<not> (0 :: rat) < 0 \<and> sign_of (0 :: rat) = 0
   \<and> (mul_op exact (sign_of (- 1)) (row_scale exact [1, - 1, 0, 0]) = row_scale exact [1, - 1, 0, 0]
        \<or> mul_op exact (sign_of (- 1)) (row_scale exact [1, - 1, 0, 0])
             = - row_scale exact [1, - 1, 0, 0]
        \<or> mul_op exact (sign_of (- 1)) (row_scale exact [1, - 1, 0, 0]) = 0)
   \<and> (\<exists>b' h2. binarize_weights exact (b0, h0) = (None, (b', h2))
          \<and> saved_params b' ! 1 = mat [[1, - 1, 0, 0], [0, 0, 0, 0]]
          \<and> h2 (target_modules b0 ! 1) = mat [[1 / 2, - (1 / 2), 0, 0], [0, 0, 0, 0]]
          \<and> saved_params b' ! 0 = t4 [[[[0, - 1]], [[0, 1]]]]
          \<and> h2 (target_modules b0 ! 0) = t4 [[[[0, - (1 / 2)]], [[0, 1 / 2]]]])"
proof -
  have a: "shadow_aligned (b0, h0)"
    by code_simp
  have d: "0 < length (target_modules b0)" "1 < length (target_modules b0)"
    "count_list (target_modules b0) (target_modules b0 ! 0) = 1"
    "count_list (target_modules b0) (target_modules b0 ! 1) = 1"
    by (simp_all add: b0_def)
  have sv: "saved_params (fst (snd (binarize_weights exact (b0, h0)))) ! 1
              = mat [[1, - 1, 0, 0], [0, 0, 0, 0]]"
    "saved_params (fst (snd (binarize_weights exact (b0, h0)))) ! 0 = t4 [[[[0, - 1]], [[0, 1]]]]"
    by code_simp+
  have w: "wf_mat 4 [[1, - 1, 0, 0], [0, 0, 0, 0 :: rat]]"
    "wf_t4 2 1 2 [[[[0, - 1]], [[0, 1 :: rat]]]]"
    by (simp_all add: wf_mat_def wf_cube_def wf_t4_def)
  have l: "mul_op exact 1 (row_scale exact [1, - 1, 0, 0]) = row_scale exact [1, - 1, 0, 0]
         \<and> mul_op exact (- 1) (row_scale exact [1, - 1, 0, 0]) = - row_scale exact [1, - 1, 0, 0]
         \<and> mul_op exact 0 (row_scale exact [1, - 1, 0, 0]) = 0"
    by (simp add: exact_def)
  have z: "\<not> (0 :: rat) < 0"
    by simp
  have c: "map (\<lambda>r. map (\<lambda>w. mul_op exact (sign_of w) (div_op exact (norm1_op exact r) (num exact 4))) r)
             [[1, - 1, 0, 0], [0, 0, 0, 0 :: rat]]
             = [[1 / 2, - (1 / 2), 0, 0], [0, 0, 0, 0]]"
    by (simp add: exact_def sign_of_def)
  have c4: "map (\<lambda>c. map (map (map (\<lambda>w. mul_op exact (sign_of w)
                 (div_op exact (sum_op exact (map (norm1_op exact) (concat c)))
                               (num exact (2 * 1 * 2)))))) c)
             [[[[0, - 1]], [[0, 1 :: rat]]]]
             = [[[[0, - (1 / 2)]], [[0, 1 / 2]]]]"
    by (simp add: exact_def sign_of_def)
  from binarized_weights[OF a d(2) d(4), of exact] obtain b' h2 where
    r: "binarize_weights exact (b0, h0) = (None, (b', h2))"
       "\<forall>n m. saved_params b' ! 1 = mat m \<and> wf_mat n m \<longrightarrow>
          h2 (target_modules b0 ! 1)
            = mat (map (\<lambda>r. map (\<lambda>w. mul_op exact (sign_of w)
                                       (div_op exact (norm1_op exact r) (num exact n))) r) m)
          \<and> (\<forall>r \<in> set m. row_scale exact r = div_op exact (norm1_op exact r) (num exact n)
                \<and> (\<forall>w \<in> set r.
                     mul_op exact 1 (row_scale exact r) = row_scale exact r
                     \<and> mul_op exact (- 1) (row_scale exact r) = - row_scale exact r
                     \<and> mul_op exact 0 (row_scale exact r) = 0 \<longrightarrow>
                       mul_op exact (sign_of w) (row_scale exact r) = row_scale exact r
                     \<or> mul_op exact (sign_of w) (row_scale exact r) = - row_scale exact r
                     \<or> mul_op exact (sign_of w) (row_scale exact r) = 0))"
       "\<not> (0 :: rat) < 0 \<longrightarrow> sign_of (0 :: rat) = 0"
    by (elim exE conjE) (rule that; assumption)
  from binarized_weights[OF a d(1) d(3), of exact] obtain b'' h2' where
    q: "binarize_weights exact (b0, h0) = (None, (b'', h2'))"
       "\<forall>j k n x. saved_params b'' ! 0 = t4 x \<and> wf_t4 j k n x \<longrightarrow>
          h2' (target_modules b0 ! 0)
            = t4 (map (\<lambda>c. map (map (map (\<lambda>w. mul_op exact (sign_of w)
                      (div_op exact (sum_op exact (map (norm1_op exact) (concat c)))
                                    (num exact (j * k * n)))))) c) x)
          \<and> (\<forall>c \<in> set x. cube_scale exact c
                  = div_op exact (sum_op exact (map (norm1_op exact) (concat c))) (num exact (j * k * n))
                \<and> (\<forall>w \<in> set (concat (concat c)).
                     mul_op exact 1 (cube_scale exact c) = cube_scale exact c
                     \<and> mul_op exact (- 1) (cube_scale exact c) = - cube_scale exact c
                     \<and> mul_op exact 0 (cube_scale exact c) = 0 \<longrightarrow>
                       mul_op exact (sign_of w) (cube_scale exact c) = cube_scale exact c
                     \<or> mul_op exact (sign_of w) (cube_scale exact c) = - cube_scale exact c
                     \<or> mul_op exact (sign_of w) (cube_scale exact c) = 0))"
    by (elim exE conjE) (rule that; assumption)
  from r(1) q(1) have same: "b'' = b'" "h2' = h2"
    by simp_all
  from sv r(1) have sv1: "saved_params b' ! 1 = mat [[1, - 1, 0, 0], [0, 0, 0, 0]]"
    and sv0: "saved_params b' ! 0 = t4 [[[[0, - 1]], [[0, 1]]]]"
    by simp_all
  have m: "h2 (target_modules b0 ! 1)
            = mat (map (\<lambda>r. map (\<lambda>w. mul_op exact (sign_of w)
                                       (div_op exact (norm1_op exact r) (num exact 4))) r)
                     [[1, - 1, 0, 0], [0, 0, 0, 0]])
          \<and> (\<forall>r \<in> set [[1, - 1, 0, 0], [0, 0, 0, 0 :: rat]].
                row_scale exact r = div_op exact (norm1_op exact r) (num exact 4)
                \<and> (\<forall>w \<in> set r.
                     mul_op exact 1 (row_scale exact r) = row_scale exact r
                     \<and> mul_op exact (- 1) (row_scale exact r) = - row_scale exact r
                     \<and> mul_op exact 0 (row_scale exact r) = 0 \<longrightarrow>
                       mul_op exact (sign_of w) (row_scale exact r) = row_scale exact r
                     \<or> mul_op exact (sign_of w) (row_scale exact r) = - row_scale exact r
                     \<or> mul_op exact (sign_of w) (row_scale exact r) = 0))"
    by (rule r(2)[rule_format, OF conjI[OF sv1 w(1)]])
  have t1: "h2 (target_modules b0 ! 1) = mat [[1 / 2, - (1 / 2), 0, 0], [0, 0, 0, 0]]"
    using m[THEN conjunct1] unfolding c .
  have "[1, - 1, 0, 0 :: rat] \<in> set [[1, - 1, 0, 0], [0, 0, 0, 0]]" "(- 1 :: rat) \<in> set [1, - 1, 0, 0]"
    by simp_all
  from m[THEN conjunct2, rule_format, OF this(1), THEN conjunct2, rule_format, OF this(2) l]
  have e: "mul_op exact (sign_of (- 1)) (row_scale exact [1, - 1, 0, 0]) = row_scale exact [1, - 1, 0, 0]
        \<or> mul_op exact (sign_of (- 1)) (row_scale exact [1, - 1, 0, 0])
             = - row_scale exact [1, - 1, 0, 0]
        \<or> mul_op exact (sign_of (- 1)) (row_scale exact [1, - 1, 0, 0]) = 0" .
  have s0: "sign_of (0 :: rat) = 0"
    using r(3) z by (rule mp)
  have t0: "h2 (target_modules b0 ! 0) = t4 [[[[0, - (1 / 2)]], [[0, 1 / 2]]]]"
    using q(2)[unfolded same, rule_format, OF conjI[OF sv0 w(2)], THEN conjunct1] unfolding c4 .
  have "\<exists>b' h2. binarize_weights exact (b0, h0) = (None, (b', h2))
          \<and> saved_params b' ! 1 = mat [[1, - 1, 0, 0], [0, 0, 0, 0]]
          \<and> h2 (target_modules b0 ! 1) = mat [[1 / 2, - (1 / 2), 0, 0], [0, 0, 0, 0]]
          \<and> saved_params b' ! 0 = t4 [[[[0, - 1]], [[0, 1]]]]
          \<and> h2 (target_modules b0 ! 0) = t4 [[[[0, - (1 / 2)]], [[0, 1 / 2]]]]"
    by (rule exI[of _ b'], rule exI[of _ h2]) (intro conjI r(1) sv1 t1 sv0 t0)
  then show ?thesis
    by (intro conjI a d w l[THEN conjunct1] l[THEN conjunct2, THEN conjunct1]
        l[THEN conjunct2, THEN conjunct2] z s0 e)
qed

section \<open>Weights of an unsupported rank\<close>

lemma center_clamp_error: "center_clamp A t \<noteq> Inl ConfigurationError"
  by (auto simp: center_clamp_def mean_dim_def reduce_dim_def add_def broadcast_def
      split: sum.splits if_splits)

lemma center_clamp_loop_error: "fst (center_clamp_loop A ms h) \<noteq> Some ConfigurationError"
  using center_clamp_error by (induction ms arbitrary: h) (auto split: sum.splits)

lemma copy_into_error: "copy_into dst src \<noteq> Inl ConfigurationError"
  by (simp add: copy_into_def)

lemma save_loop_error: "fst (save_loop is (b, h)) \<noteq> Some ConfigurationError"
  using copy_into_error by (induction "is" arbitrary: b) (auto split: sum.splits)

lemma select0_error: "select0 t \<noteq> Inl ConfigurationError"
  by (cases t rule: select0.cases) simp_all

lemma reduce_dim_error: "reduce_dim f t d \<noteq> Inl ConfigurationError"
  by (simp add: reduce_dim_def)

lemma sum_dims_1_2_error: "sum_dims_1_2 A t \<noteq> Inl ConfigurationError"
  by (simp add: sum_dims_1_2_def)

lemma scale_error: "scale A t n \<noteq> Some (Inl ConfigurationError)"
  by (auto simp: scale_def norm1_def reduce_dim_def sum_dims_1_2_def split: sum.splits if_splits)

lemma mul_error: "mul A a c \<noteq> Inl ConfigurationError"
  by (simp add: mul_def broadcast_def)

lemma binarize_loop_error: "fst (binarize_loop A ms mean h) \<noteq> Some ConfigurationError"
proof (induction ms arbitrary: mean h)
  case Nil
  then show ?case by simp
next
  case (Cons m ms)
  show ?case
    using Cons.IH
    by (auto simp: select0_error scale_error mul_error split: sum.splits option.splits)
qed

lemma binarize_weights_error: "fst (binarize_weights A s) \<noteq> Some ConfigurationError"
proof -
  obtain r1 h1 where c: "center_clamp_loop A (target_modules (fst s)) (snd s) = (r1, h1)"
    by fastforce
  obtain r2 s2 where p: "priv_save_params (fst s, h1) = (r2, s2)"
    by (cases "priv_save_params (fst s, h1)") auto
  obtain r3 h3 where q: "binarize_loop A (target_modules (fst s2)) None (snd s2) = (r3, h3)"
    by fastforce
  have "r1 \<noteq> Some ConfigurationError"
    using center_clamp_loop_error[of A "target_modules (fst s)" "snd s"] c by simp
  moreover have "r2 \<noteq> Some ConfigurationError"
    using save_loop_error[of "[0..<length (saved_params (fst s))]" "fst s" h1] p
    by (simp add: priv_save_params_def)
  moreover have "r3 \<noteq> Some ConfigurationError"
    using binarize_loop_error[of A "target_modules (fst s2)" None "snd s2"] q by simp
  ultimately show ?thesis
    by (auto simp: binarize_weights_def priv_binarize_weights_def c p q split: option.splits)
qed

text \<open>
  C5, as the specification states it: with a tracked parameter whose rank is neither 2 nor
  4, \<open>binarize_weights()\<close> raises ConfigurationError and does not binarise that parameter
  with some other scale. With one tracked parameter of shape (1, 2, 1) the call ends in
  UnboundLocalError; with that parameter tracked after a linear weight the call returns
  and the parameter holds its signs times the scales of the linear weight.
\<close>

theorem unsupported_rank_counterexample:
  "tensor_size w3 = [1, 2, 1]
   \<and> fst (binarize_weights exact (b3, h3)) = Some UnboundLocalError
   \<and> fst (binarize_weights exact (b23, h23)) = None
   \<and> snd (snd (binarize_weights exact (b23, h23))) 1 = Rows [Rows [Rows [Elem (1 / 2)], Rows [Elem 0]]]"
  by code_simp

text \<open>
  C5, amended: \<open>binarize_weights()\<close> never raises ConfigurationError, whatever the ranks
  of the tracked parameters; when every tracked parameter is a rectangular weight of rank 2
  or 4 with a buffer of its shape, as the parameters the constructor tracks are, it
  returns without exception.
\<close>

theorem binarize_weights_no_configuration_error:
  "fst (binarize_weights A s) \<noteq> Some ConfigurationError
   \<and> (shadow_aligned s \<longrightarrow> fst (binarize_weights A s) = None)"
proof
  show "fst (binarize_weights A s) \<noteq> Some ConfigurationError"
    by (rule binarize_weights_error)
  show "shadow_aligned s \<longrightarrow> fst (binarize_weights A s) = None"
  proof
    assume a: "shadow_aligned s"
    obtain b h where s: "s = (b, h)" by (cases s)
    from binarize_weights_aligned[of b h A] a s obtain b' h2 where
      "binarize_weights A (b, h) = (None, (b', h2))" by blast
    then show "fst (binarize_weights A s) = None" using s by simp
  qed
qed

theorem binarize_weights_no_configuration_error_witness:
  "fst (binarize_weights exact (b3, h3)) \<noteq> Some ConfigurationError
   \<and> shadow_aligned (b0, h0) \<and> fst (binarize_weights exact (b0, h0)) = None"
proof -
  have a: "shadow_aligned (b0, h0)"
    by code_simp
  show ?thesis
    using binarize_weights_no_configuration_error[of exact "(b0, h0)"] a
      binarize_weights_no_configuration_error[of exact "(b3, h3)"]
    by simp
qed

section \<open>Parameters that are not tracked\<close>

lemma weight_in_parameters: "eligible m \<Longrightarrow> weight m \<in> set (parameters m)"
  by (cases m) simp_all

lemma eligible_weights_Cons:
  "eligible_weights (m # ms) = (if eligible m then weight m # eligible_weights ms else eligible_weights ms)"
  by (simp add: eligible_weights_def)

lemma eligible_weights_Nil: "eligible_weights [] = []"
  by (simp add: eligible_weights_def)

lemma eligible_weights_subset:
  "set (eligible_weights ms) \<subseteq> set (concat (map parameters ms))"
  using weight_in_parameters
  by (induction ms) (auto simp: eligible_weights_Cons eligible_weights_Nil)

lemma parameter_tracked_only_as_weight:
  assumes "distinct (concat (map parameters model))" "m \<in> set model"
    "p \<in> set (parameters m)" "p \<in> set (eligible_weights model)"
  shows "eligible m \<and> p = weight m"
  using assms
proof (induction model)
  case Nil
  then show ?case by simp
next
  case (Cons m0 ms)
  from Cons.prems(1) have d: "distinct (concat (map parameters ms))"
    and disj: "set (parameters m0) \<inter> set (concat (map parameters ms)) = {}"
    by simp_all
  show ?case
  proof (cases "p \<in> set (eligible_weights ms)")
    case True
    then have pin: "p \<in> set (concat (map parameters ms))"
      using eligible_weights_subset by blast
    then have "p \<notin> set (parameters m0)" using disj by blast
    then have "m \<in> set ms" using Cons.prems(2,3) by auto
    from Cons.IH[OF d this Cons.prems(3) True] show ?thesis .
  next
    case False
    then have e0: "eligible m0" "p = weight m0"
      using Cons.prems(4) by (auto simp: eligible_weights_Cons split: if_splits)
    then have "p \<in> set (parameters m0)" using weight_in_parameters by simp
    then have "p \<notin> set (concat (map parameters ms))" using disj by blast
    then have "m \<notin> set ms" using Cons.prems(3) by auto
    then have "m = m0" using Cons.prems(2) by simp
    then show ?thesis using e0 by simp
  qed
qed

lemma distinct_eligible_weights:
  "distinct (concat (map parameters model)) \<Longrightarrow> distinct (eligible_weights model)"
proof (induction model)
  case Nil
  then show ?case by (simp add: eligible_weights_def)
next
  case (Cons m ms)
  then have d: "distinct (eligible_weights ms)"
    and disj: "set (parameters m) \<inter> set (concat (map parameters ms)) = {}"
    by simp_all
  have "weight m \<notin> set (eligible_weights ms)" if "eligible m"
    using weight_in_parameters[OF that] disj eligible_weights_subset[of ms] by blast
  then show ?case using d by (simp add: eligible_weights_Cons)
qed

lemma first_last_excluded:
  assumes "distinct xs" "2 < length xs"
  shows "hd xs \<notin> set (slice_1_m1 xs) \<and> last xs \<notin> set (slice_1_m1 xs)"
proof -
  have "xs = hd xs # slice_1_m1 xs @ [last xs]"
    using first_last_decomp[of xs] assms(2) by simp
  then have "distinct (hd xs # slice_1_m1 xs @ [last xs])"
    using assms(1) by simp
  then show ?thesis by auto
qed

text \<open>
  C8. \<open>binarize_weights()\<close> and \<open>restore_weights()\<close> leave every parameter that is not
  a target as it is, also when they end in an exception, and they leave the list of
  targets as it is. In a model whose modules register distinct parameters, the parameters
  of the batch normalisations, the biases and, where the constructor excludes them, the
  weights of the first and the last convolution or linear layer are not targets.
\<close>

theorem untracked_untouched:
  "(a \<notin> set (target_modules (fst s)) \<longrightarrow>
       snd (snd (binarize_weights A s)) a = snd s a \<and> snd (snd (restore_weights s)) a = snd s a)
   \<and> target_modules (fst (snd (binarize_weights A s))) = target_modules (fst s)
   \<and> target_modules (fst (snd (restore_weights s))) = target_modules (fst s)
   \<and> (Binarizer_init h model flag = Inr b \<and> distinct (concat (map parameters model)) \<longrightarrow>
        (\<forall>m \<in> set model. \<forall>p \<in> set (parameters m).
            \<not> (eligible m \<and> p = weight m) \<longrightarrow> p \<notin> set (target_modules b))
        \<and> (flag \<and> 2 < length (eligible_weights model) \<longrightarrow>
             hd (eligible_weights model) \<notin> set (target_modules b)
             \<and> last (eligible_weights model) \<notin> set (target_modules b)))"
proof (intro conjI impI ballI)
  assume "a \<notin> set (target_modules (fst s))"
  then show "snd (snd (binarize_weights A s)) a = snd s a"
    using binarize_weights_frame[of A s a] by simp
next
  assume "a \<notin> set (target_modules (fst s))"
  then show "snd (snd (restore_weights s)) a = snd s a"
    using restore_loop_frame[of "[0..<num_of_params (fst s)]" "fst s" "snd s" a]
    by (simp add: restore_weights_def)
next
  show "target_modules (fst (snd (binarize_weights A s))) = target_modules (fst s)"
    using binarize_weights_frame[of A s a] by simp
next
  show "target_modules (fst (snd (restore_weights s))) = target_modules (fst s)"
    using restore_loop_frame[of "[0..<num_of_params (fst s)]" "fst s" "snd s" a]
    by (simp add: restore_weights_def)
next
  fix m p
  assume i: "Binarizer_init h model flag = Inr b \<and> distinct (concat (map parameters model))"
    and m: "m \<in> set model" "p \<in> set (parameters m)" "\<not> (eligible m \<and> p = weight m)"
  have "set (target_modules b) \<subseteq> set (eligible_weights model)"
    using target_modules_init[of h model flag b] i set_slice_1_m1[of "eligible_weights model"]
    by (auto split: if_splits)
  moreover have "p \<notin> set (eligible_weights model)"
    using parameter_tracked_only_as_weight[of model m p] i m by blast
  ultimately show "p \<notin> set (target_modules b)" by blast
next
  assume i: "Binarizer_init h model flag = Inr b \<and> distinct (concat (map parameters model))"
    and f: "flag \<and> 2 < length (eligible_weights model)"
  have t: "target_modules b = slice_1_m1 (eligible_weights model)"
    using target_modules_init[of h model flag b] i f by simp
  have d: "distinct (eligible_weights model)"
    using distinct_eligible_weights i by blast
  from first_last_excluded[OF d] f
  show "hd (eligible_weights model) \<notin> set (target_modules b)"
    and "last (eligible_weights model) \<notin> set (target_modules b)"
    unfolding t by simp_all
qed

theorem untracked_untouched_witness:
  "Binarizer_init h0 net True = Inr b0 \<and> distinct (concat (map parameters net))
   \<and> 3 \<notin> set (target_modules b0) \<and> 4 \<notin> set (target_modules b0)
   \<and> 6 \<notin> set (target_modules b0) \<and> 11 \<notin> set (target_modules b0)
   \<and> snd (snd (binarize_weights exact (b0, h0))) 3 = h0 3
   \<and> snd (snd (binarize_weights exact (b0, h0))) 4 = h0 4
   \<and> snd (snd (binarize_weights exact (b0, h0))) 6 = h0 6
   \<and> snd (snd (binarize_weights exact (b0, h0))) 11 = h0 11
   \<and> snd (snd (restore_weights (b0, h0))) 3 = h0 3
   \<and> snd (snd (restore_weights (b0, h0))) 11 = h0 11"
proof -
  have i: "Binarizer_init h0 net True = Inr b0"
    by (simp add: Binarizer_init_def net_def h0_def b0_def slice_1_m1_def)
  have d: "distinct (concat (map parameters net))"
    by (simp add: net_def)
  have e: "eligible_weights net = [3, 1, 2, 4]"
    by (simp add: eligible_weights_def net_def)
  have n: "3 \<notin> set (target_modules (fst (b0, h0)))" "4 \<notin> set (target_modules (fst (b0, h0)))"
    "6 \<notin> set (target_modules (fst (b0, h0)))" "11 \<notin> set (target_modules (fst (b0, h0)))"
    by (simp_all add: b0_def)
  show ?thesis
    using i d n
      untracked_untouched[of 3 "(b0, h0)" exact h0 net True b0]
      untracked_untouched[of 4 "(b0, h0)" exact h0 net True b0]
      untracked_untouched[of 6 "(b0, h0)" exact h0 net True b0]
      untracked_untouched[of 11 "(b0, h0)" exact h0 net True b0]
    by simp
qed

section \<open>BinaryActivation: forward and backward\<close>

text \<open>
  C9. \<open>forward\<close> returns a new tensor that holds the sign of every entry of the input:
  1 for a positive entry, -1 for a negative entry, 0 for an entry that is 0. It saves the
  input for the backward pass and changes no tensor that exists at the call, the input
  among them.
\<close>

theorem forward_sign:
  assumes "forward c input mem = (c', out, mem')"
  shows "out = top mem
       \<and> cell mem' out
           = map_tensor (\<lambda>x. if 0 < x then 1 else if x < 0 then - 1 else 0) (cell mem input)
       \<and> saved_tensors c' = [input]
       \<and> top mem' = Suc (top mem)
       \<and> (\<forall>a. a \<noteq> top mem \<longrightarrow> cell mem' a = cell mem a)
       \<and> (input < top mem \<longrightarrow> cell mem' input = cell mem input)"
  using assms by (auto simp: forward_def alloc_def sign_def sign_of_def[abs_def])

theorem forward_sign_witness:
  "forward \<lparr>saved_tensors = []\<rparr> 0 mem0
     = (\<lparr>saved_tensors = [0]\<rparr>, 2,
        mem0\<lparr>cell := (cell mem0)(2 := mat [[1, 0, - 1]]), top := 3\<rparr>)
   \<and> cell (mem0\<lparr>cell := (cell mem0)(2 := mat [[1, 0, - 1]]), top := 3\<rparr>) 2 = mat [[1, 0, - 1]]
   \<and> cell (mem0\<lparr>cell := (cell mem0)(2 := mat [[1, 0, - 1]]), top := 3\<rparr>) 0 = mat [[2, 0, - 3]]"
proof -
  have f: "forward \<lparr>saved_tensors = []\<rparr> 0 mem0
     = (\<lparr>saved_tensors = [0]\<rparr>, 2,
        mem0\<lparr>cell := (cell mem0)(2 := mat [[1, 0, - 1]]), top := 3\<rparr>)"
    by (simp add: forward_def alloc_def sign_def sign_of_def mem0_def mat_def vec_def)
  from forward_sign[OF f] show ?thesis
    using f by (simp add: mem0_def)
qed

text \<open>
  C10. With the input that \<open>forward\<close> has saved, \<open>backward\<close> returns a new tensor whose
  entries are those of the upstream gradient, whatever the saved input holds; the new
  tensor is neither the upstream gradient nor the saved input, and no tensor that exists
  at the call is changed.
\<close>

theorem backward_identity:
  assumes "saved_tensors c = [input]" "input < top mem" "grad_output < top mem"
  shows "\<exists>grad_input mem'.
           backward c grad_output mem = Inr (grad_input, mem')
         \<and> cell mem' grad_input = cell mem grad_output
         \<and> grad_input = top mem
         \<and> grad_input \<noteq> grad_output \<and> grad_input \<noteq> input
         \<and> top mem' = Suc (top mem)
         \<and> cell mem' grad_output = cell mem grad_output
         \<and> cell mem' input = cell mem input
         \<and> (\<forall>a < top mem. cell mem' a = cell mem a)"
  using assms by (simp add: backward_def alloc_def)

theorem backward_identity_witness:
  "saved_tensors \<lparr>saved_tensors = [0]\<rparr> = [0] \<and> 0 < top mem0 \<and> 1 < top mem0
   \<and> backward \<lparr>saved_tensors = [0]\<rparr> 1 mem0
       = Inr (2, mem0\<lparr>cell := (cell mem0)(2 := mat [[5, 6, 7]]), top := 3\<rparr>)"
proof -
  have t: "0 < top mem0" "1 < top mem0"
    by (simp_all add: mem0_def)
  from backward_identity[of "\<lparr>saved_tensors = [0]\<rparr>" 0 mem0 1] t
  obtain g m' where r: "backward \<lparr>saved_tensors = [0]\<rparr> 1 mem0 = Inr (g, m')" "g = top mem0"
    by auto
  have "backward \<lparr>saved_tensors = [0]\<rparr> 1 mem0
       = Inr (2, mem0\<lparr>cell := (cell mem0)(2 := mat [[5, 6, 7]]), top := 3\<rparr>)"
    by (simp add: backward_def alloc_def mem0_def)
  with t show ?thesis using r by simp
qed

end
